theory Spec2Isabelle
  imports Main "HOL-Library.Mapping"
begin

section \<open>Byte strings and the string helpers of Go's standard library\<close>

text \<open>
  A Go \<^verbatim>\<open>string\<close> is a sequence of bytes, so it is a \<^typ>\<open>string\<close> here
  (a list of 8-bit characters) and Go's \<^verbatim>\<open>len\<close> is \<^const>\<open>length\<close>.
  The functions of package \<^verbatim>\<open>strings\<close> that the SDK calls are written out below.
\<close>

definition byteIn :: "char \<Rightarrow> char \<Rightarrow> char \<Rightarrow> bool" where
  "byteIn lo hi c = ((of_char lo :: nat) \<le> of_char c \<and> (of_char c :: nat) \<le> of_char hi)"

definition HasPrefix :: "string \<Rightarrow> string \<Rightarrow> bool" where
  "HasPrefix s p = (take (length p) s = p)"

definition HasSuffix :: "string \<Rightarrow> string \<Rightarrow> bool" where
  "HasSuffix s p = (length p \<le> length s \<and> drop (length s - length p) s = p)"

fun Contains :: "string \<Rightarrow> string \<Rightarrow> bool" where
  "Contains [] sub = (sub = [])"
| "Contains (c # cs) sub = (HasPrefix (c # cs) sub \<or> Contains cs sub)"

text \<open>
  \<^verbatim>\<open>strings.Split(s, sep)\<close> for a separator of one byte, which is how both call sites
  use it (\<^verbatim>\<open>"@"\<close> and \<^verbatim>\<open>"."\<close>): the pieces between the separators, in order; a
  string without separator (the empty string too) gives one piece.
\<close>

definition pushByte :: "char \<Rightarrow> string list \<Rightarrow> string list" where
  "pushByte c pieces = (c # hd pieces) # tl pieces"

fun Split :: "string \<Rightarrow> char \<Rightarrow> string list" where
  "Split [] sep = [[]]"
| "Split (c # cs) sep =
     (if c = sep then [] # Split cs sep else pushByte c (Split cs sep))"

text \<open>
  \<^verbatim>\<open>strings.TrimSpace\<close> removes leading and trailing white space as
  \<^verbatim>\<open>unicode.IsSpace\<close> defines it. On bytes these are the UTF-8 encodings of
  U+0009..U+000D, U+0020, U+0085, U+00A0, U+1680, U+2000..U+200A, U+2028, U+2029, U+202F,
  U+205F and U+3000; a byte sequence that is not one of these encodings (ill-formed UTF-8
  included) is not white space and stops the trimming.
\<close>

definition spaceRunes :: "string list" where
  "spaceRunes =
     [[CHR 0x09], [CHR 0x0A], [CHR 0x0B], [CHR 0x0C], [CHR 0x0D], [CHR 0x20],
      [CHR 0xC2, CHR 0x85], [CHR 0xC2, CHR 0xA0],
      [CHR 0xE1, CHR 0x9A, CHR 0x80],
      [CHR 0xE2, CHR 0x80, CHR 0x80], [CHR 0xE2, CHR 0x80, CHR 0x81],
      [CHR 0xE2, CHR 0x80, CHR 0x82], [CHR 0xE2, CHR 0x80, CHR 0x83],
      [CHR 0xE2, CHR 0x80, CHR 0x84], [CHR 0xE2, CHR 0x80, CHR 0x85],
      [CHR 0xE2, CHR 0x80, CHR 0x86], [CHR 0xE2, CHR 0x80, CHR 0x87],
      [CHR 0xE2, CHR 0x80, CHR 0x88], [CHR 0xE2, CHR 0x80, CHR 0x89],
      [CHR 0xE2, CHR 0x80, CHR 0x8A],
      [CHR 0xE2, CHR 0x80, CHR 0xA8], [CHR 0xE2, CHR 0x80, CHR 0xA9],
      [CHR 0xE2, CHR 0x80, CHR 0xAF], [CHR 0xE2, CHR 0x81, CHR 0x9F],
      [CHR 0xE3, CHR 0x80, CHR 0x80]]"

function trimLeftRunes :: "string list \<Rightarrow> string \<Rightarrow> string" where
  "trimLeftRunes rs s =
     (case find (\<lambda>r. r \<noteq> [] \<and> HasPrefix s r) rs of
        None \<Rightarrow> s
      | Some r \<Rightarrow> trimLeftRunes rs (drop (length r) s))"
  by pat_completeness auto
termination
proof (relation "measure (\<lambda>(rs, s). length s)")
  show "wf (measure (\<lambda>(rs, s). length s))" by simp
next
  fix rs :: "string list" and s r :: string
  assume "find (\<lambda>r. r \<noteq> [] \<and> HasPrefix s r) rs = Some r"
  then have "r \<noteq> []" and "take (length r) s = r"
    by (auto simp: find_Some_iff HasPrefix_def)
  then have "s \<noteq> []" by auto
  with \<open>r \<noteq> []\<close> show "((rs, drop (length r) s), (rs, s)) \<in> measure (\<lambda>(rs, s). length s)"
    by simp
qed

declare trimLeftRunes.simps [simp del]

definition TrimSpace :: "string \<Rightarrow> string" where
  "TrimSpace s = rev (trimLeftRunes (map rev spaceRunes) (rev (trimLeftRunes spaceRunes s)))"

section \<open>The address pattern\<close>

text \<open>
  Regular expressions with character classes given as byte ranges, matched by
  derivatives. \<^verbatim>\<open>emailRegex\<close> is anchored by \<^verbatim>\<open>^\<close> and \<^verbatim>\<open>$\<close> (which, without the
  multi-line flag, is the end of the text), so \<^verbatim>\<open>MatchString\<close> holds exactly when the
  whole string is in the language of the pattern between the anchors.
\<close>

datatype rexp =
    Zero
  | One
  | Class "(char \<times> char) list"
  | Alt rexp rexp
  | Seq rexp rexp
  | Star rexp

definition inClass :: "(char \<times> char) list \<Rightarrow> char \<Rightarrow> bool" where
  "inClass rs c = list_ex (\<lambda>(lo, hi). byteIn lo hi c) rs"

definition Lit :: "char \<Rightarrow> rexp" where
  "Lit c = Class [(c, c)]"

definition Plus :: "rexp \<Rightarrow> rexp" where
  "Plus r = Seq r (Star r)"

fun nullable :: "rexp \<Rightarrow> bool" where
  "nullable Zero = False"
| "nullable One = True"
| "nullable (Class rs) = False"
| "nullable (Alt r s) = (nullable r \<or> nullable s)"
| "nullable (Seq r s) = (nullable r \<and> nullable s)"
| "nullable (Star r) = True"

fun deriv :: "char \<Rightarrow> rexp \<Rightarrow> rexp" where
  "deriv c Zero = Zero"
| "deriv c One = Zero"
| "deriv c (Class rs) = (if inClass rs c then One else Zero)"
| "deriv c (Alt r s) = Alt (deriv c r) (deriv c s)"
| "deriv c (Seq r s) =
     (if nullable r then Alt (Seq (deriv c r) s) (deriv c s) else Seq (deriv c r) s)"
| "deriv c (Star r) = Seq (deriv c r) (Star r)"

definition MatchString :: "rexp \<Rightarrow> string \<Rightarrow> bool" where
  "MatchString r s = nullable (foldl (\<lambda>q c. deriv c q) r s)"

definition localClass :: "(char \<times> char) list" where
  "localClass =
     [(CHR ''a'', CHR ''z''), (CHR ''A'', CHR ''Z''), (CHR ''0'', CHR ''9''),
      (CHR ''.'', CHR ''.''), (CHR ''_'', CHR ''_''), (CHR ''%'', CHR ''%''),
      (CHR ''+'', CHR ''+''), (CHR ''-'', CHR ''-'')]"

definition domainClass :: "(char \<times> char) list" where
  "domainClass =
     [(CHR ''a'', CHR ''z''), (CHR ''A'', CHR ''Z''), (CHR ''0'', CHR ''9''),
      (CHR ''.'', CHR ''.''), (CHR ''-'', CHR ''-'')]"

definition alphaClass :: "(char \<times> char) list" where
  "alphaClass = [(CHR ''a'', CHR ''z''), (CHR ''A'', CHR ''Z'')]"

text \<open>\<^verbatim>\<open>^[a-zA-Z0-9._%+-]+@[a-zA-Z0-9.-]+\.[a-zA-Z]{2,}$\<close>\<close>

definition emailRegex :: rexp where
  "emailRegex =
     Seq (Plus (Class localClass))
       (Seq (Lit (CHR ''@''))
         (Seq (Plus (Class domainClass))
           (Seq (Lit (CHR ''.''))
             (Seq (Class alphaClass) (Seq (Class alphaClass) (Star (Class alphaClass)))))))"

section \<open>email.go: address validation\<close>

definition isValidEmail :: "string \<Rightarrow> bool" where
  "isValidEmail addr =
     (let email = TrimSpace addr in
      if length email = 0 \<or> length email > 254 then False
      else if \<not> MatchString emailRegex email then False
      else
        let parts = Split email (CHR ''@'') in
        if length parts \<noteq> 2 then False
        else
          let localPart = parts ! 0; domainPart = parts ! 1 in
          if HasPrefix localPart ''.'' \<or> HasSuffix localPart ''.'' \<or> Contains localPart ''..''
          then False
          else if HasPrefix domainPart ''-'' \<or> HasSuffix domainPart ''-'' \<or>
                  HasPrefix domainPart ''.'' \<or> HasSuffix domainPart ''.'' \<or>
                  Contains domainPart ''..''
          then False
          else
            let domainLabels = Split domainPart (CHR ''.'') in
            if length domainLabels < 2 then False
            else if list_ex (\<lambda>label. HasPrefix label ''-'' \<or> HasSuffix label ''-'' \<or>
                                      length label = 0) domainLabels
            then False
            else True)"

section \<open>errors.go: the error taxonomy\<close>

text \<open>
  A context map is a \<^verbatim>\<open>map[string]interface{}\<close>; the values stored in it are strings,
  integers or the field-to-reasons map of a validation error. Go maps are mappings.
\<close>

type_synonym fieldErrors = "(string, string list) mapping"

datatype ctxValue =
    CString string
  | CInt int
  | CErrors fieldErrors

record BaseError =
  Message :: string
  Code :: int
  ContextMap :: "(string, ctxValue) mapping"

text \<open>
  The seven error types embed \<^verbatim>\<open>BaseError\<close> and add their own fields, in the order of
  the struct declarations: \<^verbatim>\<open>Errors\<close>; \<^verbatim>\<open>Reason\<close>; \<^verbatim>\<open>ErrorType\<close>;
  \<^verbatim>\<open>RetryAfter\<close>, \<^verbatim>\<open>Limit\<close>, \<^verbatim>\<open>Remaining\<close>, \<^verbatim>\<open>Reset\<close>; \<^verbatim>\<open>URL\<close>; \<^verbatim>\<open>URL\<close>,
  \<^verbatim>\<open>ResponseBody\<close>.
\<close>

datatype PoodleError =
    ValidationError BaseError fieldErrors
  | AuthenticationError BaseError
  | AccountSuspendedError BaseError string
  | SubscriptionError BaseError string
  | RateLimitError BaseError int int int int
  | NetworkError BaseError string
  | HTTPError BaseError string string

fun base :: "PoodleError \<Rightarrow> BaseError" where
  "base (ValidationError b errors) = b"
| "base (AuthenticationError b) = b"
| "base (AccountSuspendedError b reason) = b"
| "base (SubscriptionError b errorType) = b"
| "base (RateLimitError b retryAfter limit remaining reset) = b"
| "base (NetworkError b url) = b"
| "base (HTTPError b url responseBody) = b"

definition StatusCode :: "PoodleError \<Rightarrow> int" where
  "StatusCode e = Code (base e)"

definition Context :: "PoodleError \<Rightarrow> (string, ctxValue) mapping" where
  "Context e = ContextMap (base e)"

text \<open>
  \<^verbatim>\<open>Error()\<close> is the message; \<^verbatim>\<open>ValidationError\<close> overrides it for an empty message.
\<close>

fun ErrorText :: "PoodleError \<Rightarrow> string" where
  "ErrorText (ValidationError b errors) =
     (if Message b \<noteq> [] then Message b else ''Validation failed'')"
| "ErrorText e = Message (base e)"

definition StatusBadRequest :: int where "StatusBadRequest = 400"
definition StatusUnauthorized :: int where "StatusUnauthorized = 401"
definition StatusPaymentRequired :: int where "StatusPaymentRequired = 402"
definition StatusForbidden :: int where "StatusForbidden = 403"
definition StatusRequestTimeout :: int where "StatusRequestTimeout = 408"
definition StatusUnprocessableEntity :: int where "StatusUnprocessableEntity = 422"
definition StatusTooManyRequests :: int where "StatusTooManyRequests = 429"
definition StatusAccepted :: int where "StatusAccepted = 202"

text \<open>\<^verbatim>\<open>fmt.Sprintf("%d", n)\<close>: the decimal digits of an integer, with a minus sign.\<close>

function natToDecimal :: "nat \<Rightarrow> string" where
  "natToDecimal n =
     (if n < 10 then [''0123456789'' ! n]
      else natToDecimal (n div 10) @ [''0123456789'' ! (n mod 10)])"
  by pat_completeness auto
termination
  by (relation "measure (\<lambda>n. n)") auto

declare natToDecimal.simps [simp del]

definition Sprintf_d :: "int \<Rightarrow> string" where
  "Sprintf_d i = (if i < 0 then CHR ''-'' # natToDecimal (nat (- i)) else natToDecimal (nat i))"

definition NewValidationError :: "string \<Rightarrow> fieldErrors \<Rightarrow> PoodleError" where
  "NewValidationError msg errors =
     ValidationError
       \<lparr>Message = msg, Code = StatusBadRequest,
        ContextMap = Mapping.of_alist
          [(''error_type'', CString ''validation_error''), (''errors'', CErrors errors)]\<rparr>
       errors"

definition NewAuthenticationError :: "string \<Rightarrow> PoodleError" where
  "NewAuthenticationError msg0 =
     (let msg = (if msg0 = [] then ''Invalid or missing API key'' else msg0) in
      AuthenticationError
        \<lparr>Message = msg, Code = StatusUnauthorized,
         ContextMap = Mapping.of_alist [(''error_type'', CString ''authentication_error'')]\<rparr>)"

definition NewAccountSuspendedError :: "string \<Rightarrow> string \<Rightarrow> PoodleError" where
  "NewAccountSuspendedError msg0 reason =
     (let msg = (if msg0 = [] then ''Account suspended'' else msg0) in
      AccountSuspendedError
        \<lparr>Message = msg, Code = StatusForbidden,
         ContextMap = Mapping.of_alist
           [(''error_type'', CString ''account_suspended''), (''reason'', CString reason)]\<rparr>
        reason)"

definition NewSubscriptionError :: "string \<Rightarrow> string \<Rightarrow> PoodleError" where
  "NewSubscriptionError msg0 errorType =
     (let msg = (if msg0 = [] then ''Subscription error'' else msg0) in
      SubscriptionError
        \<lparr>Message = msg, Code = StatusPaymentRequired,
         ContextMap = Mapping.of_alist
           [(''error_type'', CString ''subscription_error''),
            (''subscription_type'', CString errorType)]\<rparr>
        errorType)"

definition NewRateLimitError :: "string \<Rightarrow> int \<Rightarrow> int \<Rightarrow> int \<Rightarrow> int \<Rightarrow> PoodleError" where
  "NewRateLimitError msg0 retryAfter limit remaining reset =
     (let msg = (if msg0 = []
                 then ''Rate limit exceeded. Retry after '' @ Sprintf_d retryAfter @ '' seconds.''
                 else msg0) in
      RateLimitError
        \<lparr>Message = msg, Code = StatusTooManyRequests,
         ContextMap = Mapping.of_alist
           [(''error_type'', CString ''rate_limit_exceeded''), (''retry_after'', CInt retryAfter),
            (''limit'', CInt limit), (''remaining'', CInt remaining), (''reset'', CInt reset)]\<rparr>
        retryAfter limit remaining reset)"

definition NewNetworkError :: "string \<Rightarrow> string \<Rightarrow> PoodleError" where
  "NewNetworkError msg0 url =
     (let msg = (if msg0 = [] then ''Network error occurred'' else msg0) in
      NetworkError
        \<lparr>Message = msg, Code = 0,
         ContextMap = Mapping.of_alist
           [(''error_type'', CString ''network_error''), (''url'', CString url)]\<rparr>
        url)"

definition NewConnectionTimeoutError :: "int \<Rightarrow> string \<Rightarrow> PoodleError" where
  "NewConnectionTimeoutError timeout url =
     (let msg = ''Connection timeout after '' @ Sprintf_d timeout @ '' seconds'' in
      NetworkError
        \<lparr>Message = msg, Code = StatusRequestTimeout,
         ContextMap = Mapping.of_alist
           [(''error_type'', CString ''connection_timeout''), (''timeout'', CInt timeout),
            (''url'', CString url)]\<rparr>
        url)"

definition NewHTTPError :: "int \<Rightarrow> string \<Rightarrow> string \<Rightarrow> string \<Rightarrow> PoodleError" where
  "NewHTTPError statusCode msg0 url responseBody =
     (let msg = (if msg0 = [] then ''HTTP '' @ Sprintf_d statusCode @ '' error'' else msg0) in
      HTTPError
        \<lparr>Message = msg, Code = statusCode,
         ContextMap = Mapping.of_alist
           [(''error_type'', CString ''http_error''), (''url'', CString url),
            (''response_body'', CString responseBody)]\<rparr>
        url responseBody)"

section \<open>email.go: the message and its validation\<close>

record Email =
  From :: string
  To :: string
  Subject :: string
  HTML :: string
  Text :: string

definition MaxContentSize :: nat where
  "MaxContentSize = 10 * 1024 * 1024"

text \<open>
  \<^verbatim>\<open>errors[k] = append(errors[k], msg)\<close>: reading a key that is absent gives the nil
  slice, so the reason is appended to what the key holds, or starts its list.
\<close>

definition appendReason :: "fieldErrors \<Rightarrow> string \<Rightarrow> string \<Rightarrow> fieldErrors" where
  "appendReason errors k msg =
     Mapping.update k (Mapping.lookup_default [] errors k @ [msg]) errors"

text \<open>The body of \<^verbatim>\<open>Validate\<close> up to the final test: the map of violated rules.\<close>

definition collectErrors :: "Email \<Rightarrow> fieldErrors" where
  "collectErrors e =
     (let errors = Mapping.empty;
          errors =
            (if TrimSpace (From e) = [] then
               appendReason errors ''from'' ''From address is required''
             else if \<not> isValidEmail (From e) then
               appendReason errors ''from'' ''From address is not a valid email''
             else errors);
          errors =
            (if TrimSpace (To e) = [] then
               appendReason errors ''to'' ''To address is required''
             else if \<not> isValidEmail (To e) then
               appendReason errors ''to'' ''To address is not a valid email''
             else errors);
          errors =
            (if TrimSpace (Subject e) = [] then
               appendReason errors ''subject'' ''Subject is required''
             else errors);
          errors =
            (if TrimSpace (HTML e) = [] \<and> TrimSpace (Text e) = [] then
               appendReason errors ''content''
                 ''At least one content type (html or text) is required''
             else errors);
          errors =
            (if length (HTML e) > MaxContentSize then
               appendReason errors ''html'' ''HTML content exceeds maximum size limit''
             else errors);
          errors =
            (if length (Text e) > MaxContentSize then
               appendReason errors ''text'' ''Text content exceeds maximum size limit''
             else errors)
      in errors)"

text \<open>\<^verbatim>\<open>Validate\<close> returns \<^verbatim>\<open>nil\<close> (\<^const>\<open>None\<close>) or the validation error.\<close>

definition Validate :: "Email \<Rightarrow> PoodleError option" where
  "Validate e =
     (let errors = collectErrors e in
      if \<not> Mapping.is_empty errors
      then Some (NewValidationError ''Email validation failed'' errors)
      else None)"

definition HasHTML :: "Email \<Rightarrow> bool" where
  "HasHTML e = (TrimSpace (HTML e) \<noteq> [])"

definition HasText :: "Email \<Rightarrow> bool" where
  "HasText e = (TrimSpace (Text e) \<noteq> [])"

section \<open>encoding/json, as far as the SDK uses it\<close>

text \<open>
  \<^verbatim>\<open>json.Unmarshal\<close> first checks that the whole input is one JSON value (RFC 8259,
  nesting depth at most 10000) and then stores it into the target struct. The model
  below scans the input into tokens, parses the tokens with an explicit stack, and fills
  the fields of the target. The double quote is \<open>CHR 0x22\<close> and the backslash is
  \<open>CHR 0x5C\<close>.
\<close>

datatype json =
    JNull
  | JBool bool
  | JNumber string
  | JString string
  | JArray "json list"
  | JObject "(string \<times> json) list"

datatype token =
    LBrace | RBrace | LBracket | RBracket | Comma | Colon
  | StringTok string | NumberTok string | TrueTok | FalseTok | NullTok

definition isDigit :: "char \<Rightarrow> bool" where
  "isDigit c = byteIn (CHR ''0'') (CHR ''9'') c"

definition hexVal :: "char \<Rightarrow> nat option" where
  "hexVal c =
     (if byteIn (CHR ''0'') (CHR ''9'') c then Some (of_char c - 48)
      else if byteIn (CHR ''a'') (CHR ''f'') c then Some (of_char c - 87)
      else if byteIn (CHR ''A'') (CHR ''F'') c then Some (of_char c - 55)
      else None)"

text \<open>\<^verbatim>\<open>getu4\<close> without the leading \<^verbatim>\<open>\u\<close>: the value of four hexadecimal digits.\<close>

definition hex4 :: "string \<Rightarrow> nat option" where
  "hex4 s =
     (case map hexVal s of
        [Some a, Some b, Some c, Some d] \<Rightarrow> Some (((a * 16 + b) * 16 + c) * 16 + d)
      | _ \<Rightarrow> None)"

text \<open>
  The scanner inside a string literal, after the opening quote: the position of the
  closing quote, or \<^const>\<open>None\<close> for an unterminated literal, a control character
  or a bad escape. The counter is the number of bytes of an escape, already checked, that
  are still to be passed over.
\<close>

fun stringEnd :: "nat \<Rightarrow> string \<Rightarrow> nat option" where
  "stringEnd k [] = None"
| "stringEnd k (c # cs) =
     (if 0 < k then map_option Suc (stringEnd (k - 1) cs)
      else if c = CHR 0x22 then Some 0
      else if c = CHR 0x5C then
        (case cs of
           [] \<Rightarrow> None
         | e # cs1 \<Rightarrow>
             if e \<in> set ''bfnrt/'' \<or> e = CHR 0x5C \<or> e = CHR 0x22 then
               map_option Suc (stringEnd 1 cs)
             else if e = CHR ''u'' \<and> hex4 (take 4 cs1) \<noteq> None then
               map_option Suc (stringEnd 5 cs)
             else None)
      else if (of_char c :: nat) < 0x20 then None
      else map_option Suc (stringEnd 0 cs))"

text \<open>
  \<^verbatim>\<open>utf8.DecodeRune\<close>: the length of the well-formed UTF-8 sequence at the head of the
  input, or 0 when the head is ill-formed.
\<close>

definition isCont :: "char \<Rightarrow> bool" where
  "isCont c = byteIn (CHR 0x80) (CHR 0xBF) c"

definition utf8Len :: "string \<Rightarrow> nat" where
  "utf8Len s =
     (case s of
        [] \<Rightarrow> 0
      | b0 # t \<Rightarrow>
          if (of_char b0 :: nat) < 0x80 then 1
          else if byteIn (CHR 0xC2) (CHR 0xDF) b0 then
            (case t of b1 # _ \<Rightarrow> if isCont b1 then 2 else 0 | _ \<Rightarrow> 0)
          else if byteIn (CHR 0xE0) (CHR 0xEF) b0 then
            (case t of
               b1 # b2 # _ \<Rightarrow>
                 if byteIn (if b0 = CHR 0xE0 then CHR 0xA0 else CHR 0x80)
                      (if b0 = CHR 0xED then CHR 0x9F else CHR 0xBF) b1 \<and> isCont b2
                 then 3 else 0
             | _ \<Rightarrow> 0)
          else if byteIn (CHR 0xF0) (CHR 0xF4) b0 then
            (case t of
               b1 # b2 # b3 # _ \<Rightarrow>
                 if byteIn (if b0 = CHR 0xF0 then CHR 0x90 else CHR 0x80)
                      (if b0 = CHR 0xF4 then CHR 0x8F else CHR 0xBF) b1 \<and> isCont b2 \<and> isCont b3
                 then 4 else 0
             | _ \<Rightarrow> 0)
          else 0)"

text \<open>\<^verbatim>\<open>utf8.EncodeRune\<close> for a code point that is not a surrogate.\<close>

definition byte :: "nat \<Rightarrow> char" where
  "byte n = char_of n"

definition encodeRune :: "nat \<Rightarrow> string" where
  "encodeRune r =
     (if r < 0x80 then [byte r]
      else if r < 0x800 then [byte (0xC0 + r div 64), byte (0x80 + r mod 64)]
      else if r < 0x10000 then
        [byte (0xE0 + r div 4096), byte (0x80 + r div 64 mod 64), byte (0x80 + r mod 64)]
      else
        [byte (0xF0 + r div 262144), byte (0x80 + r div 4096 mod 64),
         byte (0x80 + r div 64 mod 64), byte (0x80 + r mod 64)])"

definition replacementChar :: string where
  "replacementChar = [CHR 0xEF, CHR 0xBF, CHR 0xBD]"

definition simpleEscape :: "char \<Rightarrow> char" where
  "simpleEscape e =
     (if e = CHR ''b'' then CHR 0x08 else if e = CHR ''f'' then CHR 0x0C
      else if e = CHR ''n'' then CHR 0x0A else if e = CHR ''r'' then CHR 0x0D
      else if e = CHR ''t'' then CHR 0x09 else e)"

text \<open>
  The second half of a surrogate pair: the value of an escape \<^verbatim>\<open>\uXXXX\<close> at the head of
  the input, if there is one.
\<close>

definition escapeAt :: "string \<Rightarrow> nat option" where
  "escapeAt s = (if take 2 s = [CHR 0x5C, CHR ''u''] then hex4 (take 4 (drop 2 s)) else None)"

text \<open>
  \<^verbatim>\<open>unquote\<close>: the bytes a scanned literal stands for. Escapes are replaced, a pair of
  surrogate escapes gives one code point, a lone surrogate and every ill-formed byte give
  U+FFFD. The counter is the number of bytes still to copy from a well-formed sequence.
\<close>

function unquoteFrom :: "nat \<Rightarrow> string \<Rightarrow> string" where
  "unquoteFrom k [] = []"
| "unquoteFrom k (c # cs) =
     (if 0 < k then c # unquoteFrom (k - 1) cs
      else if c = CHR 0x5C then
        (case cs of
           [] \<Rightarrow> []
         | e # cs1 \<Rightarrow>
             if e = CHR ''u'' then
               (case hex4 (take 4 cs1) of
                  None \<Rightarrow> []
                | Some r \<Rightarrow>
                    if 0xD800 \<le> r \<and> r < 0xE000 then
                      (case escapeAt (drop 4 cs1) of
                         None \<Rightarrow> replacementChar @ unquoteFrom 0 (drop 4 cs1)
                       | Some r1 \<Rightarrow>
                           if r < 0xDC00 \<and> 0xDC00 \<le> r1 \<and> r1 < 0xE000 then
                             encodeRune ((r - 0xD800) * 1024 + (r1 - 0xDC00) + 0x10000)
                               @ unquoteFrom 0 (drop 10 cs1)
                           else replacementChar @ unquoteFrom 0 (drop 4 cs1))
                    else encodeRune r @ unquoteFrom 0 (drop 4 cs1))
             else simpleEscape e # unquoteFrom 0 cs1)
      else if (of_char c :: nat) < 0x80 then c # unquoteFrom 0 cs
      else if utf8Len (c # cs) = 0 then replacementChar @ unquoteFrom 0 cs
      else c # unquoteFrom (utf8Len (c # cs) - 1) cs)"
  by pat_completeness auto
termination
  by (relation "measure (\<lambda>(k, s). length s)") auto

declare unquoteFrom.simps [simp del]

definition unquote :: "string \<Rightarrow> string" where
  "unquote raw = unquoteFrom 0 raw"

definition Opt :: "rexp \<Rightarrow> rexp" where
  "Opt r = Alt One r"

definition digitClass :: "(char \<times> char) list" where
  "digitClass = [(CHR ''0'', CHR ''9'')]"

text \<open>\<^verbatim>\<open>-?(0|[1-9][0-9]*)(\.[0-9]+)?([eE][+-]?[0-9]+)?\<close>\<close>

definition numberRegex :: rexp where
  "numberRegex =
     Seq (Opt (Lit (CHR ''-'')))
       (Seq (Alt (Lit (CHR ''0'')) (Seq (Class [(CHR ''1'', CHR ''9'')]) (Star (Class digitClass))))
         (Seq (Opt (Seq (Lit (CHR ''.'')) (Plus (Class digitClass))))
           (Opt (Seq (Class [(CHR ''e'', CHR ''e''), (CHR ''E'', CHR ''E'')])
                  (Seq (Opt (Class [(CHR ''+'', CHR ''+''), (CHR ''-'', CHR ''-'')]))
                    (Plus (Class digitClass)))))))"

definition isNumberByte :: "char \<Rightarrow> bool" where
  "isNumberByte c = (isDigit c \<or> c \<in> set ''+-.eE'')"

definition isJSONSpace :: "char \<Rightarrow> bool" where
  "isJSONSpace c = (c = CHR '' '' \<or> c = CHR 0x09 \<or> c = CHR 0x0D \<or> c = CHR 0x0A)"

definition consTok :: "token \<Rightarrow> token list option \<Rightarrow> token list option" where
  "consTok t r = map_option ((#) t) r"

text \<open>
  The tokens of the input. A number is the longest run of number bytes, which must be a
  JSON number; a literal name is \<^verbatim>\<open>true\<close>, \<^verbatim>\<open>false\<close> or \<^verbatim>\<open>null\<close>.
\<close>

function lexJSON :: "string \<Rightarrow> token list option" where
  "lexJSON s =
     (case s of
        [] \<Rightarrow> Some []
      | c # cs \<Rightarrow>
          if isJSONSpace c then lexJSON cs
          else if c = CHR ''{'' then consTok LBrace (lexJSON cs)
          else if c = CHR ''}'' then consTok RBrace (lexJSON cs)
          else if c = CHR ''['' then consTok LBracket (lexJSON cs)
          else if c = CHR '']'' then consTok RBracket (lexJSON cs)
          else if c = CHR '','' then consTok Comma (lexJSON cs)
          else if c = CHR '':'' then consTok Colon (lexJSON cs)
          else if c = CHR 0x22 then
            (case stringEnd 0 cs of
               None \<Rightarrow> None
             | Some n \<Rightarrow>
                 consTok (StringTok (unquote (take n cs))) (lexJSON (drop (Suc n) cs)))
          else if c = CHR ''-'' \<or> isDigit c then
            (if MatchString numberRegex (takeWhile isNumberByte s)
             then consTok (NumberTok (takeWhile isNumberByte s)) (lexJSON (dropWhile isNumberByte cs))
             else None)
          else if HasPrefix s ''true'' then consTok TrueTok (lexJSON (drop 3 cs))
          else if HasPrefix s ''false'' then consTok FalseTok (lexJSON (drop 4 cs))
          else if HasPrefix s ''null'' then consTok NullTok (lexJSON (drop 3 cs))
          else None)"
  by pat_completeness auto
termination
  by (relation "measure length") (auto simp: less_Suc_eq_le length_dropWhile_le)

declare lexJSON.simps [simp del]

text \<open>
  The parser keeps a stack of the arrays and objects that are open: an array with its
  elements so far, an object with its members so far and the key that awaits its value
  (both in reverse order).
\<close>

datatype frame =
    ArrayFrame "json list"
  | ObjectFrame "(string \<times> json) list" string

datatype expect =
    WantValue | WantValueOrEnd | WantKey | WantKeyOrEnd | WantColon | WantCommaOrEnd
  | Finished json

definition maxNestingDepth :: nat where
  "maxNestingDepth = 10000"

fun putValue :: "json \<Rightarrow> frame list \<Rightarrow> expect \<times> frame list" where
  "putValue v [] = (Finished v, [])"
| "putValue v (ArrayFrame xs # st) = (WantCommaOrEnd, ArrayFrame (v # xs) # st)"
| "putValue v (ObjectFrame ms k # st) = (WantCommaOrEnd, ObjectFrame ((k, v) # ms) k # st)"

fun scalarOf :: "token \<Rightarrow> json option" where
  "scalarOf (StringTok s) = Some (JString s)"
| "scalarOf (NumberTok n) = Some (JNumber n)"
| "scalarOf TrueTok = Some (JBool True)"
| "scalarOf FalseTok = Some (JBool False)"
| "scalarOf NullTok = Some JNull"
| "scalarOf t = None"

fun closeFrame :: "token \<Rightarrow> frame list \<Rightarrow> (expect \<times> frame list) option" where
  "closeFrame RBracket (ArrayFrame xs # st) = Some (putValue (JArray (rev xs)) st)"
| "closeFrame RBrace (ObjectFrame ms k # st) = Some (putValue (JObject (rev ms)) st)"
| "closeFrame t st = None"

fun openFrame :: "token \<Rightarrow> frame list \<Rightarrow> (expect \<times> frame list) option" where
  "openFrame LBracket st =
     (if length st < maxNestingDepth then Some (WantValueOrEnd, ArrayFrame [] # st) else None)"
| "openFrame LBrace st =
     (if length st < maxNestingDepth then Some (WantKeyOrEnd, ObjectFrame [] [] # st) else None)"
| "openFrame t st = None"

fun setKey :: "token \<Rightarrow> frame list \<Rightarrow> (expect \<times> frame list) option" where
  "setKey (StringTok k) (ObjectFrame ms old # st) = Some (WantColon, ObjectFrame ms k # st)"
| "setKey t st = None"

fun nextAfterComma :: "frame list \<Rightarrow> (expect \<times> frame list) option" where
  "nextAfterComma (ArrayFrame xs # st) = Some (WantValue, ArrayFrame xs # st)"
| "nextAfterComma (ObjectFrame ms k # st) = Some (WantKey, ObjectFrame ms k # st)"
| "nextAfterComma [] = None"

fun parseStep :: "expect \<Rightarrow> frame list \<Rightarrow> token \<Rightarrow> (expect \<times> frame list) option" where
  "parseStep WantValue st t =
     (case scalarOf t of Some v \<Rightarrow> Some (putValue v st) | None \<Rightarrow> openFrame t st)"
| "parseStep WantValueOrEnd st t =
     (case scalarOf t of
        Some v \<Rightarrow> Some (putValue v st)
      | None \<Rightarrow> if t = RBracket then closeFrame t st else openFrame t st)"
| "parseStep WantKey st t = setKey t st"
| "parseStep WantKeyOrEnd st t = (if t = RBrace then closeFrame t st else setKey t st)"
| "parseStep WantColon st t = (if t = Colon then Some (WantValue, st) else None)"
| "parseStep WantCommaOrEnd st t = (if t = Comma then nextAfterComma st else closeFrame t st)"
| "parseStep (Finished v) st t = None"

fun parseTokens :: "expect \<Rightarrow> frame list \<Rightarrow> token list \<Rightarrow> json option" where
  "parseTokens (Finished v) st [] = Some v"
| "parseTokens e st [] = None"
| "parseTokens e st (t # ts) =
     (case parseStep e st t of None \<Rightarrow> None | Some (e', st') \<Rightarrow> parseTokens e' st' ts)"

definition parseJSON :: "string \<Rightarrow> json option" where
  "parseJSON body =
     (case lexJSON body of None \<Rightarrow> None | Some ts \<Rightarrow> parseTokens WantValue [] ts)"

text \<open>
  Storing into a struct. The targets of the SDK have fields tagged \<^verbatim>\<open>success\<close> (a bool),
  \<^verbatim>\<open>message\<close> and \<^verbatim>\<open>error\<close> (strings); a target is given by the tags it has. A key
  selects the field whose tag it equals, or else equals up to case folding, under which
  U+017F folds to s and U+212A to k. A JSON null leaves the field as it is; a value of
  another type than the field's is recorded as an error and decoding goes on; a key
  without field is skipped. A top-level null stores nothing; any other top-level value
  than an object is an error.
\<close>

record EmailResponse =
  success :: bool
  message :: string
  error :: string

definition zeroResponse :: EmailResponse where
  "zeroResponse = \<lparr>success = False, message = [], error = []\<rparr>"

definition asciiLower :: "char \<Rightarrow> char" where
  "asciiLower c =
     (if byteIn (CHR ''A'') (CHR ''Z'') c then char_of (of_char c + (32::nat)) else c)"

fun foldKey :: "string \<Rightarrow> string" where
  "foldKey [] = []"
| "foldKey (c # cs) =
     (if HasPrefix (c # cs) [CHR 0xC5, CHR 0xBF] then CHR ''s'' # foldKey (drop 1 cs)
      else if HasPrefix (c # cs) [CHR 0xE2, CHR 0x84, CHR 0xAA] then CHR ''k'' # foldKey (drop 2 cs)
      else asciiLower c # foldKey cs)"

definition matchField :: "string list \<Rightarrow> string \<Rightarrow> string option" where
  "matchField tags k =
     (case find (\<lambda>f. f = k) tags of
        Some f \<Rightarrow> Some f
      | None \<Rightarrow> find (\<lambda>f. f = foldKey k) tags)"

definition storeField :: "string \<Rightarrow> json \<Rightarrow> EmailResponse \<times> bool \<Rightarrow> EmailResponse \<times> bool" where
  "storeField f v acc =
     (case acc of (r, failed) \<Rightarrow>
        if f = ''success'' then
          (case v of JBool b \<Rightarrow> (r\<lparr>success := b\<rparr>, failed) | JNull \<Rightarrow> (r, failed)
           | _ \<Rightarrow> (r, True))
        else if f = ''message'' then
          (case v of JString s \<Rightarrow> (r\<lparr>message := s\<rparr>, failed) | JNull \<Rightarrow> (r, failed)
           | _ \<Rightarrow> (r, True))
        else if f = ''error'' then
          (case v of JString s \<Rightarrow> (r\<lparr>error := s\<rparr>, failed) | JNull \<Rightarrow> (r, failed)
           | _ \<Rightarrow> (r, True))
        else (r, failed))"

fun storeMembers ::
  "string list \<Rightarrow> (string \<times> json) list \<Rightarrow> EmailResponse \<times> bool \<Rightarrow> EmailResponse \<times> bool" where
  "storeMembers tags [] acc = acc"
| "storeMembers tags ((k, v) # ms) acc =
     storeMembers tags ms
       (case matchField tags k of None \<Rightarrow> acc | Some f \<Rightarrow> storeField f v acc)"

text \<open>
  \<^verbatim>\<open>json.Unmarshal(body, &target)\<close>: the target after the call, and whether the call
  returned an error. A syntax error stores nothing.
\<close>

definition Unmarshal :: "string list \<Rightarrow> string \<Rightarrow> EmailResponse \<times> bool" where
  "Unmarshal tags body =
     (case parseJSON body of
        None \<Rightarrow> (zeroResponse, True)
      | Some (JObject ms) \<Rightarrow> storeMembers tags ms (zeroResponse, False)
      | Some JNull \<Rightarrow> (zeroResponse, False)
      | Some v \<Rightarrow> (zeroResponse, True))"

section \<open>config.go: the configuration\<close>

text \<open>
  A \<^verbatim>\<open>time.Duration\<close> is a number of nanoseconds. \<^verbatim>\<open>int(d.Seconds())\<close> goes through
  a \<^verbatim>\<open>float64\<close> and truncates; for a duration under \<open>2 ^ 24\<close> seconds the result
  is the whole number of seconds, which is what \<^verbatim>\<open>wholeSeconds\<close> gives.
\<close>

record Config =
  APIKey :: string
  BaseURL :: string
  Timeout :: int
  ConnectTimeout :: int
  Debug :: bool

definition DefaultBaseURL :: string where
  "DefaultBaseURL = ''https://api.usepoodle.com''"

definition Second :: int where
  "Second = 1000000000"

definition DefaultTimeout :: int where
  "DefaultTimeout = 30 * Second"

definition DefaultConnectTimeout :: int where
  "DefaultConnectTimeout = 10 * Second"

definition SDKVersion :: string where
  "SDKVersion = ''1.0.0''"

definition NewConfig :: Config where
  "NewConfig =
     \<lparr>APIKey = [], BaseURL = DefaultBaseURL, Timeout = DefaultTimeout,
      ConnectTimeout = DefaultConnectTimeout, Debug = False\<rparr>"

definition GetUserAgent :: "Config \<Rightarrow> string" where
  "GetUserAgent c = ''poodle-go/'' @ SDKVersion"

definition wholeSeconds :: "int \<Rightarrow> int" where
  "wholeSeconds d = (if d < 0 then - ((- d) div Second) else d div Second)"

text \<open>
  \<^verbatim>\<open>Config.Validate\<close> returns the first violated rule as a \<^verbatim>\<open>ValidationError\<close> built
  in place: only the message and the errors are set, so its code is the zero value and its
  context map is nil. \<^verbatim>\<open>NewClientWithConfig\<close> panics on it, before any message is sent.
\<close>

definition configError :: "string \<Rightarrow> string \<Rightarrow> PoodleError" where
  "configError field msg =
     ValidationError \<lparr>Message = msg, Code = 0, ContextMap = Mapping.empty\<rparr>
       (Mapping.update field [msg] Mapping.empty)"

definition Config_Validate :: "Config \<Rightarrow> PoodleError option" where
  "Config_Validate c =
     (if APIKey c = [] then Some (configError ''api_key'' ''API key is required'')
      else if BaseURL c = [] then Some (configError ''base_url'' ''Base URL is required'')
      else if Timeout c \<le> 0 then
        Some (configError ''timeout'' ''Timeout must be greater than 0'')
      else if ConnectTimeout c \<le> 0 then
        Some (configError ''connect_timeout'' ''Connect timeout must be greater than 0'')
      else None)"

section \<open>net/http and strconv, as far as the SDK uses them\<close>

text \<open>
  An \<^verbatim>\<open>http.Header\<close> is a \<^verbatim>\<open>map[string][]string\<close> whose keys net/http stores in
  canonical form. \<^verbatim>\<open>Get\<close> and \<^verbatim>\<open>Set\<close> canonicalise the name they are given:
  a name made of token bytes gets an upper-case first letter and an upper-case letter
  after each hyphen, and lower-case letters elsewhere; any other name is left as it is.
\<close>

type_synonym Header = "(string, string list) mapping"

definition validHeaderFieldByte :: "char \<Rightarrow> bool" where
  "validHeaderFieldByte c =
     (byteIn (CHR ''a'') (CHR ''z'') c \<or> byteIn (CHR ''A'') (CHR ''Z'') c \<or>
      byteIn (CHR ''0'') (CHR ''9'') c \<or> c \<in> set ''!#$%&*+-.^_`|~'' \<or> c = CHR 0x27)"

definition asciiUpper :: "char \<Rightarrow> char" where
  "asciiUpper c =
     (if byteIn (CHR ''a'') (CHR ''z'') c then char_of (of_char c - (32::nat)) else c)"

fun canonicalBytes :: "bool \<Rightarrow> string \<Rightarrow> string" where
  "canonicalBytes upper [] = []"
| "canonicalBytes upper (c # cs) =
     (if upper then asciiUpper c else asciiLower c) # canonicalBytes (c = CHR ''-'') cs"

definition CanonicalMIMEHeaderKey :: "string \<Rightarrow> string" where
  "CanonicalMIMEHeaderKey s =
     (if list_all validHeaderFieldByte s then canonicalBytes True s else s)"

definition Header_Get :: "Header \<Rightarrow> string \<Rightarrow> string" where
  "Header_Get h key =
     (case Mapping.lookup h (CanonicalMIMEHeaderKey key) of
        None \<Rightarrow> []
      | Some [] \<Rightarrow> []
      | Some (v # vs) \<Rightarrow> v)"

definition Header_Set :: "Header \<Rightarrow> string \<Rightarrow> string \<Rightarrow> Header" where
  "Header_Set h key v = Mapping.update (CanonicalMIMEHeaderKey key) [v] h"

text \<open>
  \<^verbatim>\<open>strconv.ParseInt(s, 10, bitSize)\<close>: an optional sign and decimal digits, within the
  range of a signed integer of the given size; \<^const>\<open>None\<close> is a returned error.
  \<^verbatim>\<open>strconv.Atoi\<close> is the same at the size of \<^verbatim>\<open>int\<close>, taken as 64 bits.
\<close>

fun digitsValue :: "string \<Rightarrow> nat \<Rightarrow> nat option" where
  "digitsValue [] acc = Some acc"
| "digitsValue (c # cs) acc =
     (if isDigit c then digitsValue cs (acc * 10 + (of_char c - 48)) else None)"

definition ParseInt :: "string \<Rightarrow> nat \<Rightarrow> int option" where
  "ParseInt s bitSize =
     (if s = [] then None
      else
        let neg = (hd s = CHR ''-'');
            ds = (if hd s = CHR ''+'' \<or> hd s = CHR ''-'' then tl s else s)
        in if ds = [] then None
           else
             (case digitsValue ds 0 of
                None \<Rightarrow> None
              | Some un \<Rightarrow>
                  if \<not> neg \<and> un \<ge> 2 ^ (bitSize - 1) then None
                  else if neg \<and> un > 2 ^ (bitSize - 1) then None
                  else Some (if neg then - int un else int un)))"

definition Atoi :: "string \<Rightarrow> int option" where
  "Atoi s = ParseInt s 64"

text \<open>\<^verbatim>\<open>strings.TrimRight(s, "/")\<close>\<close>

definition TrimRightSlash :: "string \<Rightarrow> string" where
  "TrimRightSlash s = rev (dropWhile (\<lambda>c. c = CHR ''/'') (rev s))"

record Request =
  Method :: string
  URL :: string
  ReqHeader :: Header
  ReqBody :: string

text \<open>
  A response as \<^verbatim>\<open>SendEmail\<close> reads it: the status code, the headers, and what
  \<^verbatim>\<open>io.ReadAll\<close> gives for the body (\<^const>\<open>None\<close> when reading fails).
\<close>

record Response =
  RespStatusCode :: int
  RespHeader :: Header
  RespBody :: "string option"

text \<open>
  \<^verbatim>\<open>HTTPDoer.Do\<close> acts on the world outside the program (the network, or the state of
  a test double): from a request and the world it gives a response, or an error given by
  its text, and the world after the call. The standard library calls whose results the
  SDK only tests are parameters: \<^verbatim>\<open>json.Marshal\<close> of the message (\<^const>\<open>None\<close> when
  it returns an error) and whether \<^verbatim>\<open>http.NewRequest\<close> accepts the URL.
\<close>

type_synonym 'w HTTPDoer = "Request \<Rightarrow> 'w \<Rightarrow> (string + Response) \<times> 'w"

record Platform =
  json_Marshal :: "Email \<Rightarrow> string option"
  url_accepted :: "string \<Rightarrow> bool"

definition NewRequest :: "Platform \<Rightarrow> string \<Rightarrow> string \<Rightarrow> string \<Rightarrow> Request option" where
  "NewRequest p method url body =
     (if url_accepted p url
      then Some \<lparr>Method = method, URL = url, ReqHeader = Mapping.empty, ReqBody = body\<rparr>
      else None)"

section \<open>The HTTP client: parsing the responses\<close>

definition parseSuccessResponse :: "string \<Rightarrow> PoodleError + EmailResponse" where
  "parseSuccessResponse body =
     (case Unmarshal [''success'', ''message'', ''error''] body of
        (response, failed) \<Rightarrow>
          if failed then Inl (NewNetworkError ''Failed to parse response'' [])
          else Inr response)"

definition parseValidationError :: "string \<Rightarrow> PoodleError" where
  "parseValidationError body =
     (case Unmarshal [''success'', ''message'', ''error''] body of
        (apiResponse, failed) \<Rightarrow>
          if failed then
            NewValidationError ''Validation failed''
              (Mapping.update ''request'' [''Invalid request format''] Mapping.empty)
          else
            let errors = Mapping.update ''request'' [message apiResponse] Mapping.empty;
                errors = (if error apiResponse \<noteq> []
                          then Mapping.update ''details'' [error apiResponse] errors
                          else errors)
            in NewValidationError (message apiResponse) errors)"

definition parseAuthenticationError :: "string \<Rightarrow> PoodleError" where
  "parseAuthenticationError body =
     (case Unmarshal [''message''] body of
        (apiResponse, failed) \<Rightarrow>
          if failed then NewAuthenticationError ''Invalid or missing API key''
          else NewAuthenticationError (message apiResponse))"

definition parseSubscriptionError :: "string \<Rightarrow> PoodleError" where
  "parseSubscriptionError body =
     (case Unmarshal [''message'', ''error''] body of
        (apiResponse, failed) \<Rightarrow>
          if failed then NewSubscriptionError ''Subscription error'' ''unknown''
          else
            let msg = message apiResponse;
                errorType =
                  (if Contains msg ''expired'' then ''subscription_expired''
                   else if Contains msg ''trial'' then ''trial_limit_reached''
                   else if Contains msg ''limit'' then ''limit_reached''
                   else ''unknown'')
            in NewSubscriptionError msg errorType)"

definition parseAccountSuspendedError :: "string \<Rightarrow> PoodleError" where
  "parseAccountSuspendedError body =
     (case Unmarshal [''message'', ''error''] body of
        (apiResponse, failed) \<Rightarrow>
          if failed then NewAccountSuspendedError ''Account suspended'' ''unknown''
          else NewAccountSuspendedError (message apiResponse) (error apiResponse))"

definition parseRateLimitError :: "Response \<Rightarrow> string \<Rightarrow> PoodleError" where
  "parseRateLimitError resp body =
     (case Unmarshal [''message'', ''error''] body of
        (apiResponse, failed) \<Rightarrow>
          let retryAfterStr = Header_Get (RespHeader resp) ''retry-after'';
              retryAfter =
                (if retryAfterStr \<noteq> []
                 then (case Atoi retryAfterStr of Some val \<Rightarrow> val | None \<Rightarrow> 0) else 0);
              limitStr = Header_Get (RespHeader resp) ''ratelimit-limit'';
              limit =
                (if limitStr \<noteq> []
                 then (case Atoi limitStr of Some val \<Rightarrow> val | None \<Rightarrow> 0) else 0);
              remainingStr = Header_Get (RespHeader resp) ''ratelimit-remaining'';
              remaining =
                (if remainingStr \<noteq> []
                 then (case Atoi remainingStr of Some val \<Rightarrow> val | None \<Rightarrow> 0) else 0);
              resetStr = Header_Get (RespHeader resp) ''ratelimit-reset'';
              reset =
                (if resetStr \<noteq> []
                 then (case ParseInt resetStr 64 of Some val \<Rightarrow> val | None \<Rightarrow> 0) else 0);
              msg = (if message apiResponse = []
                     then ''Rate limit exceeded. Retry after '' @ Sprintf_d retryAfter
                            @ '' seconds.''
                     else message apiResponse)
          in NewRateLimitError msg retryAfter limit remaining reset)"

definition parseGenericError :: "int \<Rightarrow> string \<Rightarrow> string \<Rightarrow> PoodleError" where
  "parseGenericError statusCode body url =
     (case Unmarshal [''message'', ''error''] body of
        (apiResponse, failed) \<Rightarrow>
          let msg = (if \<not> failed \<and> message apiResponse \<noteq> [] then message apiResponse
                     else ''HTTP '' @ Sprintf_d statusCode @ '' error'')
          in NewHTTPError statusCode msg url body)"

text \<open>
  The \<^verbatim>\<open>switch resp.StatusCode\<close> at the end of \<^verbatim>\<open>SendEmail\<close>: the classifier of the
  response, from the status code, the headers and the body that was read.
\<close>

definition classify :: "string \<Rightarrow> Response \<Rightarrow> string \<Rightarrow> PoodleError + EmailResponse" where
  "classify url resp responseBody =
     (if RespStatusCode resp = StatusAccepted then parseSuccessResponse responseBody
      else if RespStatusCode resp = StatusBadRequest then Inl (parseValidationError responseBody)
      else if RespStatusCode resp = StatusUnauthorized then
        Inl (parseAuthenticationError responseBody)
      else if RespStatusCode resp = StatusPaymentRequired then
        Inl (parseSubscriptionError responseBody)
      else if RespStatusCode resp = StatusForbidden then
        Inl (parseAccountSuspendedError responseBody)
      else if RespStatusCode resp = StatusUnprocessableEntity then
        Inl (parseValidationError responseBody)
      else if RespStatusCode resp = StatusTooManyRequests then
        Inl (parseRateLimitError resp responseBody)
      else Inl (parseGenericError (RespStatusCode resp) responseBody url))"

section \<open>The HTTP client: sending\<close>

text \<open>
  \<^verbatim>\<open>SendEmail\<close> returns the response or the error; the world is passed through, so
  that every call of the \<^verbatim>\<open>HTTPDoer\<close> shows in the world that is returned. The
  diagnostic lines logged when \<^verbatim>\<open>Debug\<close> is set are left out: they change neither
  the result nor the calls.
\<close>

definition buildRequest :: "Config \<Rightarrow> Request \<Rightarrow> Request" where
  "buildRequest config req =
     (let h = Header_Set (ReqHeader req) ''Content-Type'' ''application/json'';
          h = Header_Set h ''Accept'' ''application/json'';
          h = Header_Set h ''Authorization'' (''Bearer '' @ APIKey config);
          h = Header_Set h ''User-Agent'' (GetUserAgent config)
      in req\<lparr>ReqHeader := h\<rparr>)"

definition SendEmail ::
  "Platform \<Rightarrow> Config \<Rightarrow> 'w HTTPDoer \<Rightarrow> Email \<Rightarrow> 'w \<Rightarrow> (PoodleError + EmailResponse) \<times> 'w" where
  "SendEmail p config doer email w =
     (case Validate email of
        Some err \<Rightarrow> (Inl err, w)
      | None \<Rightarrow>
          (case json_Marshal p email of
             None \<Rightarrow> (Inl (NewNetworkError ''Failed to encode request body'' []), w)
           | Some requestBody \<Rightarrow>
               let url = TrimRightSlash (BaseURL config) @ ''/v1/send-email'' in
               (case NewRequest p ''POST'' url requestBody of
                  None \<Rightarrow> (Inl (NewNetworkError ''Failed to create request'' url), w)
                | Some req0 \<Rightarrow>
                    let req = buildRequest config req0 in
                    (case doer req w of
                       (Inl errText, w') \<Rightarrow>
                         (if Contains errText ''timeout''
                          then Inl (NewConnectionTimeoutError (wholeSeconds (Timeout config)) url)
                          else Inl (NewNetworkError (''Request failed: '' @ errText) url),
                          w')
                     | (Inr resp, w') \<Rightarrow>
                         (case RespBody resp of
                            None \<Rightarrow>
                              (Inl (NewNetworkError ''Failed to read response body'' url), w')
                          | Some responseBody \<Rightarrow>
                              (classify url resp responseBody, w'))))))"

section \<open>Messages used as concrete instances\<close>

text \<open>The messages of \<^verbatim>\<open>TestEmailValidation\<close>, and one at the size boundary.\<close>

definition bothEmail :: Email where
  "bothEmail =
     \<lparr>From = ''from@example.com'', To = ''to@example.com'', Subject = ''Test Subject'',
      HTML = ''<h1>Hello</h1>'', Text = ''Hello World''\<rparr>"

definition textEmail :: Email where
  "textEmail =
     \<lparr>From = ''from@example.com'', To = ''to@example.com'', Subject = ''Test Subject'',
      HTML = [], Text = ''Hello World''\<rparr>"

definition missingFromEmail :: Email where
  "missingFromEmail =
     \<lparr>From = [], To = ''to@example.com'', Subject = ''Test Subject'',
      HTML = ''<h1>Hello</h1>'', Text = []\<rparr>"

definition oversizedEmail :: Email where
  "oversizedEmail =
     \<lparr>From = ''from@example.com'', To = ''to@example.com'', Subject = ''Test Subject'',
      HTML = replicate (10 * 1024 * 1024 + 1) (CHR ''a''), Text = ''Hello World''\<rparr>"

definition boundaryEmail :: Email where
  "boundaryEmail =
     \<lparr>From = ''from@example.com'', To = ''to@example.com'', Subject = ''Test Subject'',
      HTML = replicate (10 * 1024 * 1024) (CHR ''a''), Text = ''Hello World''\<rparr>"

definition oversizedTextEmail :: Email where
  "oversizedTextEmail =
     \<lparr>From = ''from@example.com'', To = ''to@example.com'', Subject = ''Test Subject'',
      HTML = [], Text = replicate (10 * 1024 * 1024 + 1) (CHR ''a'')\<rparr>"

text \<open>
  The property that every key of an errors map holds at least one reason.
\<close>

definition reasonsPresent :: "fieldErrors \<Rightarrow> bool" where
  "reasonsPresent m = (\<forall>k\<in>Mapping.keys m. \<exists>rs. Mapping.lookup m k = Some rs \<and> rs \<noteq> [])"

text \<open>
  The responses and the test double of \<^verbatim>\<open>TestClientSendMethods\<close>: a double answers
  every request with the same response or error and records the request.
\<close>

definition queuedBody :: string where
  \<open>queuedBody = ''{"success":true,"message":"Email queued"}''\<close>

definition refusedBody :: string where
  \<open>refusedBody = ''{"success":false,"message":"Not queued","error":"busy"}''\<close>

definition brokenBody :: string where
  \<open>brokenBody = ''{"success":true,''\<close>

definition expiredTrialBody :: string where
  \<open>expiredTrialBody = ''{"message":"Your trial limit has expired"}''\<close>

definition trialLimitBody :: string where
  \<open>trialLimitBody = ''{"message":"trial limit reached"}''\<close>

definition rateLimitBody :: string where
  \<open>rateLimitBody = ''{"message":"Rate limit exceeded"}''\<close>

definition rateLimitHeader :: Header where
  "rateLimitHeader =
     Mapping.of_alist
       [(''Retry-After'', [''60'']), (''Ratelimit-Limit'', [''100'']),
        (''Ratelimit-Remaining'', [''0'']), (''Ratelimit-Reset'', [''1678886400''])]"

definition response :: "int \<Rightarrow> Header \<Rightarrow> string \<Rightarrow> Response" where
  "response code h body = \<lparr>RespStatusCode = code, RespHeader = h, RespBody = Some body\<rparr>"

definition mockDoer :: "string + Response \<Rightarrow> (Request list) HTTPDoer" where
  "mockDoer answer req log = (answer, log @ [req])"

definition testConfig :: Config where
  "testConfig = NewConfig\<lparr>APIKey := ''test_api_key''\<rparr>"

definition testURL :: string where
  "testURL = ''https://api.usepoodle.com/v1/send-email''"

text \<open>
  A platform for the instances: every URL is accepted, and the message is encoded as
  \<^verbatim>\<open>json.Marshal\<close> encodes a message whose strings need no escaping.
\<close>

definition plainMarshal :: "Email \<Rightarrow> string option" where
  \<open>plainMarshal e =
     Some (''{"from":"'' @ From e @ ''","to":"'' @ To e @ ''","subject":"'' @ Subject e @ ''"''
           @ (if HTML e = [] then [] else '',"html":"'' @ HTML e @ ''"'')
           @ (if Text e = [] then [] else '',"text":"'' @ Text e @ ''"'') @ ''}'')\<close>

definition testPlatform :: Platform where
  "testPlatform = \<lparr>json_Marshal = plainMarshal, url_accepted = (\<lambda>url. True)\<rparr>"

definition isNetworkError :: "PoodleError \<Rightarrow> bool" where
  "isNetworkError e = (case e of NetworkError b url \<Rightarrow> True | _ \<Rightarrow> False)"

definition noMarshalPlatform :: Platform where
  "noMarshalPlatform = \<lparr>json_Marshal = (\<lambda>e. None), url_accepted = (\<lambda>url. True)\<rparr>"

definition noRequestPlatform :: Platform where
  "noRequestPlatform = \<lparr>json_Marshal = plainMarshal, url_accepted = (\<lambda>url. False)\<rparr>"

definition unreadableResponse :: Response where
  "unreadableResponse = \<lparr>RespStatusCode = 202, RespHeader = Mapping.empty, RespBody = None\<rparr>"

definition textRequest :: Request where
  "textRequest =
     buildRequest testConfig
       \<lparr>Method = ''POST'', URL = testURL, ReqHeader = Mapping.empty,
        ReqBody = the (plainMarshal textEmail)\<rparr>"

text \<open>The URL and the request of a send attempt, as \<^const>\<open>SendEmail\<close> builds them.\<close>

definition sendURL :: "Config \<Rightarrow> string" where
  "sendURL config = TrimRightSlash (BaseURL config) @ ''/v1/send-email''"

definition sendRequest :: "Config \<Rightarrow> string \<Rightarrow> Request" where
  "sendRequest config requestBody =
     buildRequest config
       \<lparr>Method = ''POST'', URL = sendURL config, ReqHeader = Mapping.empty,
        ReqBody = requestBody\<rparr>"

text \<open>
  The integer that a header holds: 0 when the header is absent or is not a number in
  range. A string is numeric when it is a non-empty run of decimal digits after an
  optional sign.
\<close>

definition headerValue :: "Header \<Rightarrow> string \<Rightarrow> int" where
  "headerValue h name = (case Atoi (Header_Get h name) of Some v \<Rightarrow> v | None \<Rightarrow> 0)"

definition unsignedPart :: "string \<Rightarrow> string" where
  "unsignedPart s = (if s \<noteq> [] \<and> (hd s = CHR ''+'' \<or> hd s = CHR ''-'') then tl s else s)"

definition numeric :: "string \<Rightarrow> bool" where
  "numeric s = (unsignedPart s \<noteq> [] \<and> list_all isDigit (unsignedPart s))"

section \<open>The address grammar and the language of a pattern\<close>

text \<open>
  The grammar of an address as the specification words it: a local part of one or more
  bytes of \<^verbatim>\<open>[A-Za-z0-9._%+-]\<close>, an at sign, and a domain of labels joined by dots, each
  label one or more bytes of \<^verbatim>\<open>[A-Za-z0-9-]\<close>, with at least one label before a final
  label of at least two letters. \<^verbatim>\<open>strings.Join\<close> puts the separator between the pieces.
\<close>

fun Join :: "string list \<Rightarrow> string \<Rightarrow> string" where
  "Join [] sep = []"
| "Join [p] sep = p"
| "Join (p # q # ps) sep = p @ sep @ Join (q # ps) sep"

definition isAlpha :: "char \<Rightarrow> bool" where
  "isAlpha c = (byteIn (CHR ''a'') (CHR ''z'') c \<or> byteIn (CHR ''A'') (CHR ''Z'') c)"

definition localPartChar :: "char \<Rightarrow> bool" where
  "localPartChar c = (isAlpha c \<or> isDigit c \<or> c \<in> set ''._%+-'')"

definition labelChar :: "char \<Rightarrow> bool" where
  "labelChar c = (isAlpha c \<or> isDigit c \<or> c = CHR ''-'')"

definition matchesGrammar :: "string \<Rightarrow> string list \<Rightarrow> string \<Rightarrow> bool" where
  "matchesGrammar localPart labels final =
     (localPart \<noteq> [] \<and> list_all localPartChar localPart \<and>
      labels \<noteq> [] \<and> list_all (\<lambda>x. x \<noteq> [] \<and> list_all labelChar x) labels \<and>
      2 \<le> length final \<and> list_all isAlpha final)"

definition address :: "string \<Rightarrow> string list \<Rightarrow> string \<Rightarrow> string" where
  "address localPart labels final = localPart @ ''@'' @ Join (labels @ [final]) ''.''"

text \<open>
  The additional rejects, for a local part, a domain and the dot-separated labels of the
  domain.
\<close>

definition additionalReject :: "string \<Rightarrow> string \<Rightarrow> string list \<Rightarrow> bool" where
  "additionalReject localPart domainPart labels =
     (HasPrefix localPart ''.'' \<or> HasSuffix localPart ''.'' \<or> Contains localPart ''..'' \<or>
      HasPrefix domainPart ''-'' \<or> HasSuffix domainPart ''-'' \<or>
      HasPrefix domainPart ''.'' \<or> HasSuffix domainPart ''.'' \<or>
      Contains domainPart ''..'' \<or>
      length labels < 2 \<or>
      list_ex (\<lambda>x. HasPrefix x ''-'' \<or> HasSuffix x ''-'' \<or> x = []) labels)"

text \<open>The language of a pattern: the strings it stands for.\<close>

definition conc :: "string set \<Rightarrow> string set \<Rightarrow> string set" where
  "conc A B = {a @ b | a b. a \<in> A \<and> b \<in> B}"

inductive_set star :: "string set \<Rightarrow> string set" for A :: "string set" where
  star_Nil: "[] \<in> star A"
| star_step: "a \<in> A \<Longrightarrow> w \<in> star A \<Longrightarrow> a @ w \<in> star A"

fun lang :: "rexp \<Rightarrow> string set" where
  "lang Zero = {}"
| "lang One = {[]}"
| "lang (Class rs) = {[c] | c. inClass rs c}"
| "lang (Alt r s) = lang r \<union> lang s"
| "lang (Seq r s) = conc (lang r) (lang s)"
| "lang (Star r) = star (lang r)"

section \<open>Facts about trimming\<close>

lemma HasPrefix_Cons_hd: "r \<noteq> [] \<Longrightarrow> HasPrefix (c # t) r \<Longrightarrow> hd r = c"
  by (cases r) (auto simp: HasPrefix_def)

lemma trimLeftRunes_keep:
  assumes "\<forall>r\<in>set rs. r \<noteq> [] \<longrightarrow> hd r \<noteq> c"
  shows "trimLeftRunes rs (c # t) = c # t"
proof -
  have "find (\<lambda>r. r \<noteq> [] \<and> HasPrefix (c # t) r) rs = None"
    using assms by (auto simp: find_None_iff dest: HasPrefix_Cons_hd)
  then show ?thesis by (subst trimLeftRunes.simps) simp
qed

lemma trimLeftRunes_Nil: "trimLeftRunes rs [] = []"
  by (subst trimLeftRunes.simps) (auto simp: HasPrefix_def find_Some_iff split: option.splits)

lemma TrimSpace_Nil: "TrimSpace [] = []"
  by (simp add: TrimSpace_def trimLeftRunes_Nil)

lemma trimLeftRunes_rev_keep:
  assumes "s \<noteq> []" and "last s \<notin> set (map last spaceRunes)"
  shows "trimLeftRunes (map rev spaceRunes) (rev s) = rev s"
proof -
  have r: "rev s = last s # rev (butlast s)"
    using assms(1) by (induction s) auto
  have "\<forall>r\<in>set (map rev spaceRunes). r \<noteq> [] \<longrightarrow> hd r \<noteq> last s"
  proof (intro ballI impI)
    fix r assume "r \<in> set (map rev spaceRunes)" and "r \<noteq> []"
    then obtain p where p: "p \<in> set spaceRunes" "r = rev p" by auto
    then have "hd r = last p" by (simp add: hd_rev)
    moreover have "last p \<in> set (map last spaceRunes)" using p(1) by simp
    ultimately show "hd r \<noteq> last s" using assms(2) by metis
  qed
  then show ?thesis
    unfolding r by (rule trimLeftRunes_keep)
qed

lemma trimLeftRunes_hd_keep:
  assumes "hd (c # t) \<notin> set (map hd spaceRunes)"
  shows "trimLeftRunes spaceRunes (c # t) = c # t"
proof -
  have "\<forall>r\<in>set spaceRunes. r \<noteq> [] \<longrightarrow> hd r \<noteq> c"
    using assms by auto
  then show ?thesis by (rule trimLeftRunes_keep)
qed

lemma TrimSpace_id:
  assumes "s \<noteq> []"
    and "hd s \<notin> set (map hd spaceRunes)"
    and "last s \<notin> set (map last spaceRunes)"
  shows "TrimSpace s = s"
proof -
  obtain c t where s: "s = c # t" using assms(1) by (cases s) auto
  have "trimLeftRunes spaceRunes s = s"
    using assms(2) unfolding s by (rule trimLeftRunes_hd_keep)
  then show ?thesis
    by (simp add: TrimSpace_def trimLeftRunes_rev_keep [OF assms(1) assms(3)])
qed

lemma trimLeftRunes_spaces:
  "trimLeftRunes (map rev spaceRunes) (replicate n (CHR '' '') @ t) =
   trimLeftRunes (map rev spaceRunes) t"
proof (induction n)
  case 0
  show ?case by simp
next
  case (Suc n)
  have "find (\<lambda>r. r \<noteq> [] \<and> HasPrefix (CHR '' '' # replicate n (CHR '' '') @ t) r)
          (map rev spaceRunes) = Some '' ''"
    by (simp add: spaceRunes_def HasPrefix_def)
  then show ?case using Suc by (subst trimLeftRunes.simps) simp
qed

lemma TrimSpace_padded:
  assumes "s \<noteq> []"
    and "hd s \<notin> set (map hd spaceRunes)"
    and "last s \<notin> set (map last spaceRunes)"
  shows "TrimSpace (s @ replicate n (CHR '' '')) = s"
proof -
  obtain c t where s: "s = c # t" using assms(1) by (cases s) auto
  have "hd (c # (t @ replicate n (CHR '' ''))) \<notin> set (map hd spaceRunes)"
    using assms(2) s by simp
  then have "trimLeftRunes spaceRunes (c # (t @ replicate n (CHR '' ''))) =
             c # (t @ replicate n (CHR '' ''))"
    by (rule trimLeftRunes_hd_keep)
  then have l: "trimLeftRunes spaceRunes (s @ replicate n (CHR '' '')) = s @ replicate n (CHR '' '')"
    by (simp add: s)
  show ?thesis
    by (simp add: TrimSpace_def l trimLeftRunes_spaces trimLeftRunes_rev_keep [OF assms(1) assms(3)])
qed

section \<open>Facts about address validation\<close>

lemma isValidEmail_iff:
  "isValidEmail addr \<longleftrightarrow>
     (TrimSpace addr \<noteq> [] \<and> length (TrimSpace addr) \<le> 254 \<and>
      MatchString emailRegex (TrimSpace addr) \<and>
      length (Split (TrimSpace addr) (CHR ''@'')) = 2 \<and>
      \<not> (HasPrefix (Split (TrimSpace addr) (CHR ''@'') ! 0) ''.'' \<or>
         HasSuffix (Split (TrimSpace addr) (CHR ''@'') ! 0) ''.'' \<or>
         Contains (Split (TrimSpace addr) (CHR ''@'') ! 0) ''..'') \<and>
      \<not> (HasPrefix (Split (TrimSpace addr) (CHR ''@'') ! 1) ''-'' \<or>
         HasSuffix (Split (TrimSpace addr) (CHR ''@'') ! 1) ''-'' \<or>
         HasPrefix (Split (TrimSpace addr) (CHR ''@'') ! 1) ''.'' \<or>
         HasSuffix (Split (TrimSpace addr) (CHR ''@'') ! 1) ''.'' \<or>
         Contains (Split (TrimSpace addr) (CHR ''@'') ! 1) ''..'') \<and>
      2 \<le> length (Split (Split (TrimSpace addr) (CHR ''@'') ! 1) (CHR ''.'')) \<and>
      \<not> list_ex (\<lambda>label. HasPrefix label ''-'' \<or> HasSuffix label ''-'' \<or> length label = 0)
           (Split (Split (TrimSpace addr) (CHR ''@'') ! 1) (CHR ''.'')))"
  unfolding isValidEmail_def Let_def by (auto simp: not_less)

lemmas regex_eval =
  MatchString_def emailRegex_def Plus_def Lit_def inClass_def byteIn_def
  localClass_def domainClass_def alphaClass_def

lemma padded_address_trim:
  "TrimSpace (''a@example.com'' @ replicate 242 (CHR '' '')) = ''a@example.com''"
  by (rule TrimSpace_padded) (simp_all add: spaceRunes_def)

lemma short_address_valid: "isValidEmail ''a@example.com''"
proof -
  have t: "TrimSpace ''a@example.com'' = ''a@example.com''"
    by (rule TrimSpace_id) (simp_all add: spaceRunes_def)
  have m: "MatchString emailRegex ''a@example.com''"
    by (simp add: regex_eval)
  show ?thesis
    unfolding isValidEmail_iff t
    by (simp add: m pushByte_def HasPrefix_def HasSuffix_def)
qed

text \<open>
  Claim C8. As stated (every string longer than 254 bytes is rejected) the claim fails:
  the length test is made after \<^const>\<open>TrimSpace\<close>, so a short valid address padded with
  blanks to 255 bytes is accepted.
\<close>

theorem isValidEmail_long_padded_accepted:
  "254 < length (''a@example.com'' @ replicate 242 (CHR '' '')) \<and>
   isValidEmail (''a@example.com'' @ replicate 242 (CHR '' ''))"
proof -
  have t: "TrimSpace ''a@example.com'' = ''a@example.com''"
    by (rule TrimSpace_id) (simp_all add: spaceRunes_def)
  have "isValidEmail (''a@example.com'' @ replicate 242 (CHR '' '')) = isValidEmail ''a@example.com''"
    by (simp only: isValidEmail_iff padded_address_trim t)
  then show ?thesis using short_address_valid by simp
qed

text \<open>
  Claim C8, amended: every string whose length after trimming surrounding white space
  exceeds 254 bytes is rejected, and so is every string that is empty after trimming (the
  empty string in particular).
\<close>

theorem isValidEmail_rejects_long_or_blank:
  "(254 < length (TrimSpace s) \<longrightarrow> \<not> isValidEmail s) \<and>
   (TrimSpace s = [] \<longrightarrow> \<not> isValidEmail s) \<and>
   \<not> isValidEmail []"
  by (simp add: isValidEmail_iff TrimSpace_Nil)

theorem isValidEmail_rejects_long_or_blank_witness:
  "254 < length (TrimSpace (replicate 255 (CHR ''a''))) \<and>
   \<not> isValidEmail (replicate 255 (CHR ''a'')) \<and>
   TrimSpace (replicate 3 (CHR '' '')) = [] \<and>
   \<not> isValidEmail (replicate 3 (CHR '' ''))"
proof -
  have a: "TrimSpace (replicate 255 (CHR ''a'')) = replicate 255 (CHR ''a'')"
    by (rule TrimSpace_id) (simp_all add: spaceRunes_def)
  have "trimLeftRunes spaceRunes '' '' = []"
    by (subst trimLeftRunes.simps) (simp add: spaceRunes_def HasPrefix_def trimLeftRunes_Nil)
  then have "trimLeftRunes spaceRunes ''  '' = []"
    by (subst trimLeftRunes.simps) (simp add: spaceRunes_def HasPrefix_def)
  then have "trimLeftRunes spaceRunes ''   '' = []"
    by (subst trimLeftRunes.simps) (simp add: spaceRunes_def HasPrefix_def)
  then have b: "TrimSpace (replicate 3 (CHR '' '')) = []"
    by (simp add: TrimSpace_def trimLeftRunes_Nil numeral_3_eq_3)
  show ?thesis
    using isValidEmail_rejects_long_or_blank [of "replicate 255 (CHR ''a'')"]
      isValidEmail_rejects_long_or_blank [of "replicate 3 (CHR '' '')"] a b
    by simp
qed

section \<open>Facts about message validation\<close>

lemma keys_appendReason: "Mapping.keys (appendReason m k msg) = insert k (Mapping.keys m)"
  by (simp add: appendReason_def)

lemma lookup_appendReason:
  "Mapping.lookup (appendReason m k msg) k' =
     (if k = k' then Some (Mapping.lookup_default [] m k @ [msg]) else Mapping.lookup m k')"
  by (simp add: appendReason_def lookup_update')

lemma keys_rule1:
  "Mapping.keys (if c then appendReason m k msg else m) =
   Mapping.keys m \<union> (if c then {k} else {})"
  by (simp add: keys_appendReason)

lemma keys_rule2:
  "Mapping.keys (if c then appendReason m k msg else if d then appendReason m k msg' else m) =
   Mapping.keys m \<union> (if c \<or> d then {k} else {})"
  by (simp add: keys_appendReason)

lemma reasonsPresent_empty: "reasonsPresent Mapping.empty"
  by (simp add: reasonsPresent_def)

lemma reasonsPresent_append: "reasonsPresent m \<Longrightarrow> reasonsPresent (appendReason m k msg)"
  by (auto simp: reasonsPresent_def keys_appendReason lookup_appendReason)

lemma reasonsPresent_if:
  "reasonsPresent a \<Longrightarrow> reasonsPresent b \<Longrightarrow> reasonsPresent (if c then a else b)"
  by simp

lemma reasonsPresent_collect: "reasonsPresent (collectErrors e)"
  unfolding collectErrors_def Let_def
  by (intro reasonsPresent_if reasonsPresent_append reasonsPresent_empty)

lemma collectErrors_keys:
  "Mapping.keys (collectErrors e) =
     (if TrimSpace (From e) = [] \<or> \<not> isValidEmail (From e) then {''from''} else {}) \<union>
     (if TrimSpace (To e) = [] \<or> \<not> isValidEmail (To e) then {''to''} else {}) \<union>
     (if TrimSpace (Subject e) = [] then {''subject''} else {}) \<union>
     (if TrimSpace (HTML e) = [] \<and> TrimSpace (Text e) = [] then {''content''} else {}) \<union>
     (if MaxContentSize < length (HTML e) then {''html''} else {}) \<union>
     (if MaxContentSize < length (Text e) then {''text''} else {})"
  unfolding collectErrors_def Let_def
  by (simp only: keys_rule1 keys_rule2 Mapping.keys_empty Un_empty_left Un_assoc)

lemma Validate_cases:
  "Validate e =
     (if Mapping.keys (collectErrors e) = {} then None
      else Some (NewValidationError ''Email validation failed'' (collectErrors e)))"
  by (simp add: Validate_def Let_def Mapping.is_empty_def)

lemma Validate_Some_key:
  assumes "k \<in> Mapping.keys (collectErrors e)"
  shows "\<exists>b errors. Validate e = Some (ValidationError b errors) \<and> k \<in> Mapping.keys errors"
  using assms by (auto simp: Validate_cases NewValidationError_def)

lemma isValidEmail_not_blank: "isValidEmail s \<Longrightarrow> TrimSpace s \<noteq> []"
  by (simp add: isValidEmail_iff)

lemma plain_trim: "TrimSpace ''Test Subject'' = ''Test Subject''"
  and html_trim: "TrimSpace ''<h1>Hello</h1>'' = ''<h1>Hello</h1>''"
  and text_trim: "TrimSpace ''Hello World'' = ''Hello World''"
  and filler_trim: "0 < n \<Longrightarrow> TrimSpace (replicate n (CHR ''a'')) = replicate n (CHR ''a'')"
  by (rule TrimSpace_id; simp add: spaceRunes_def)+

lemma from_address_valid: "isValidEmail ''from@example.com''"
proof -
  have t: "TrimSpace ''from@example.com'' = ''from@example.com''"
    by (rule TrimSpace_id) (simp_all add: spaceRunes_def)
  have m: "MatchString emailRegex ''from@example.com''"
    by (simp add: regex_eval)
  show ?thesis
    unfolding isValidEmail_iff t
    by (simp add: m pushByte_def HasPrefix_def HasSuffix_def)
qed

lemma to_address_valid: "isValidEmail ''to@example.com''"
proof -
  have t: "TrimSpace ''to@example.com'' = ''to@example.com''"
    by (rule TrimSpace_id) (simp_all add: spaceRunes_def)
  have m: "MatchString emailRegex ''to@example.com''"
    by (simp add: regex_eval)
  show ?thesis
    unfolding isValidEmail_iff t
    by (simp add: m pushByte_def HasPrefix_def HasSuffix_def)
qed

text \<open>
  Claim C2. The last sentence of the claim fails as stated: a message with valid from, to
  and subject and with both html and text populated is still refused when a body exceeds
  the size limit.
\<close>

theorem populated_message_refused:
  "isValidEmail (From oversizedEmail) \<and> isValidEmail (To oversizedEmail) \<and>
   TrimSpace (Subject oversizedEmail) \<noteq> [] \<and>
   HasHTML oversizedEmail \<and> HasText oversizedEmail \<and>
   Validate oversizedEmail \<noteq> None"
proof -
  have "''html'' \<in> Mapping.keys (collectErrors oversizedEmail)"
    by (simp add: collectErrors_keys oversizedEmail_def MaxContentSize_def)
  then have "Validate oversizedEmail \<noteq> None"
    using Validate_Some_key by fastforce
  then show ?thesis
    by (simp add: oversizedEmail_def HasHTML_def HasText_def from_address_valid
        to_address_valid plain_trim text_trim filler_trim)
qed

text \<open>
  Claim C2, amended. \<^const>\<open>Validate\<close> checks every rule and records each violated one
  under its field name: the keys of the errors map are among from, to, subject, content,
  html and text, each key is present exactly when its rule is violated (whatever the other
  rules say), and each holds at least one reason. The result is \<^verbatim>\<open>nil\<close> exactly when
  the map is empty, and otherwise the validation error that carries the map. A message
  whose from is missing (blank) yields a validation error with key from. A message with
  valid from and to, a non-blank subject, and html and text both populated and each of at
  most 10 MiB returns \<^verbatim>\<open>nil\<close>.
\<close>

theorem Validate_accumulates:
  "Mapping.keys (collectErrors e) \<subseteq>
     {''from'', ''to'', ''subject'', ''content'', ''html'', ''text''} \<and>
   (''from'' \<in> Mapping.keys (collectErrors e) \<longleftrightarrow>
      TrimSpace (From e) = [] \<or> \<not> isValidEmail (From e)) \<and>
   (''to'' \<in> Mapping.keys (collectErrors e) \<longleftrightarrow>
      TrimSpace (To e) = [] \<or> \<not> isValidEmail (To e)) \<and>
   (''subject'' \<in> Mapping.keys (collectErrors e) \<longleftrightarrow> TrimSpace (Subject e) = []) \<and>
   (''content'' \<in> Mapping.keys (collectErrors e) \<longleftrightarrow>
      TrimSpace (HTML e) = [] \<and> TrimSpace (Text e) = []) \<and>
   (''html'' \<in> Mapping.keys (collectErrors e) \<longleftrightarrow> MaxContentSize < length (HTML e)) \<and>
   (''text'' \<in> Mapping.keys (collectErrors e) \<longleftrightarrow> MaxContentSize < length (Text e)) \<and>
   (\<forall>k\<in>Mapping.keys (collectErrors e).
      \<exists>reasons. Mapping.lookup (collectErrors e) k = Some reasons \<and> reasons \<noteq> []) \<and>
   (Validate e = None \<longleftrightarrow> Mapping.is_empty (collectErrors e)) \<and>
   (Validate e \<noteq> None \<longrightarrow>
      Validate e = Some (NewValidationError ''Email validation failed'' (collectErrors e))) \<and>
   (TrimSpace (From e) = [] \<longrightarrow>
      (\<exists>b errors. Validate e = Some (ValidationError b errors) \<and>
         ''from'' \<in> Mapping.keys errors)) \<and>
   (isValidEmail (From e) \<and> isValidEmail (To e) \<and> TrimSpace (Subject e) \<noteq> [] \<and>
    HasHTML e \<and> HasText e \<and>
    length (HTML e) \<le> MaxContentSize \<and> length (Text e) \<le> MaxContentSize \<longrightarrow>
      Validate e = None)"
proof (intro conjI)
  show "Mapping.keys (collectErrors e) \<subseteq>
     {''from'', ''to'', ''subject'', ''content'', ''html'', ''text''}"
    by (simp add: collectErrors_keys)
  show "\<forall>k\<in>Mapping.keys (collectErrors e).
      \<exists>reasons. Mapping.lookup (collectErrors e) k = Some reasons \<and> reasons \<noteq> []"
    using reasonsPresent_collect [of e] by (simp add: reasonsPresent_def)
  show "Validate e = None \<longleftrightarrow> Mapping.is_empty (collectErrors e)"
    by (simp add: Validate_def Let_def)
  show "Validate e \<noteq> None \<longrightarrow>
      Validate e = Some (NewValidationError ''Email validation failed'' (collectErrors e))"
    by (simp add: Validate_cases)
  show "TrimSpace (From e) = [] \<longrightarrow>
      (\<exists>b errors. Validate e = Some (ValidationError b errors) \<and>
         ''from'' \<in> Mapping.keys errors)"
    by (intro impI Validate_Some_key) (simp add: collectErrors_keys)
  show "isValidEmail (From e) \<and> isValidEmail (To e) \<and> TrimSpace (Subject e) \<noteq> [] \<and>
    HasHTML e \<and> HasText e \<and>
    length (HTML e) \<le> MaxContentSize \<and> length (Text e) \<le> MaxContentSize \<longrightarrow>
      Validate e = None"
    by (auto simp: Validate_cases collectErrors_keys HasHTML_def HasText_def
        dest: isValidEmail_not_blank)
qed (simp_all add: collectErrors_keys)

theorem Validate_accumulates_witness:
  "TrimSpace (From missingFromEmail) = [] \<and>
   (\<exists>b errors. Validate missingFromEmail = Some (ValidationError b errors) \<and>
      ''from'' \<in> Mapping.keys errors) \<and>
   ''from'' \<in> Mapping.keys (collectErrors missingFromEmail) \<and>
   (\<exists>reasons. Mapping.lookup (collectErrors missingFromEmail) ''from'' = Some reasons \<and>
      reasons \<noteq> []) \<and>
   Validate missingFromEmail \<noteq> None \<and>
   isValidEmail (From bothEmail) \<and> isValidEmail (To bothEmail) \<and>
   TrimSpace (Subject bothEmail) \<noteq> [] \<and> HasHTML bothEmail \<and> HasText bothEmail \<and>
   length (HTML bothEmail) \<le> MaxContentSize \<and> length (Text bothEmail) \<le> MaxContentSize \<and>
   Validate bothEmail = None"
proof -
  have m: "TrimSpace (From missingFromEmail) = []"
    by (simp add: missingFromEmail_def TrimSpace_Nil)
  have b: "isValidEmail (From bothEmail) \<and> isValidEmail (To bothEmail) \<and>
      TrimSpace (Subject bothEmail) \<noteq> [] \<and> HasHTML bothEmail \<and> HasText bothEmail \<and>
      length (HTML bothEmail) \<le> MaxContentSize \<and> length (Text bothEmail) \<le> MaxContentSize"
    by (simp add: bothEmail_def HasHTML_def HasText_def from_address_valid to_address_valid
        plain_trim html_trim text_trim MaxContentSize_def)
  note T1 = Validate_accumulates [of missingFromEmail]
  note T2 = Validate_accumulates [of bothEmail]
  have k: "''from'' \<in> Mapping.keys (collectErrors missingFromEmail)"
    using T1 m by blast
  have r: "\<exists>reasons. Mapping.lookup (collectErrors missingFromEmail) ''from'' = Some reasons \<and>
      reasons \<noteq> []"
    using T1 k by blast
  have v: "\<exists>b errors. Validate missingFromEmail = Some (ValidationError b errors) \<and>
      ''from'' \<in> Mapping.keys errors"
    using T1 m by blast
  then have n: "Validate missingFromEmail \<noteq> None" by auto
  have o: "Validate bothEmail = None"
    using T2 b by blast
  show ?thesis
    using m v k r n b o by blast
qed

text \<open>
  Claim C6. The size rule of a body field fires exactly when the field is longer than
  10 MiB (10 * 1024 * 1024 bytes, \<^const>\<open>length\<close> counting raw bytes), whatever the other
  rules say, the blank-content rule included: a field of exactly 10 MiB passes it, and a
  longer html (text) field yields a validation error with key html (text).
\<close>

theorem content_size_limit:
  "MaxContentSize = 10 * 1024 * 1024 \<and>
   (''html'' \<in> Mapping.keys (collectErrors e) \<longleftrightarrow> 10 * 1024 * 1024 < length (HTML e)) \<and>
   (''text'' \<in> Mapping.keys (collectErrors e) \<longleftrightarrow> 10 * 1024 * 1024 < length (Text e)) \<and>
   (10 * 1024 * 1024 < length (HTML e) \<longrightarrow>
      (\<exists>b errors. Validate e = Some (ValidationError b errors) \<and>
         ''html'' \<in> Mapping.keys errors)) \<and>
   (10 * 1024 * 1024 < length (Text e) \<longrightarrow>
      (\<exists>b errors. Validate e = Some (ValidationError b errors) \<and>
         ''text'' \<in> Mapping.keys errors))"
proof (intro conjI impI)
  show "MaxContentSize = 10 * 1024 * 1024" by (simp add: MaxContentSize_def)
  show "''html'' \<in> Mapping.keys (collectErrors e) \<longleftrightarrow> 10 * 1024 * 1024 < length (HTML e)"
    by (simp add: collectErrors_keys MaxContentSize_def)
  show "''text'' \<in> Mapping.keys (collectErrors e) \<longleftrightarrow> 10 * 1024 * 1024 < length (Text e)"
    by (simp add: collectErrors_keys MaxContentSize_def)
  show "\<exists>b errors. Validate e = Some (ValidationError b errors) \<and> ''html'' \<in> Mapping.keys errors"
    if "10 * 1024 * 1024 < length (HTML e)"
    using that by (intro Validate_Some_key) (simp add: collectErrors_keys MaxContentSize_def)
  show "\<exists>b errors. Validate e = Some (ValidationError b errors) \<and> ''text'' \<in> Mapping.keys errors"
    if "10 * 1024 * 1024 < length (Text e)"
    using that by (intro Validate_Some_key) (simp add: collectErrors_keys MaxContentSize_def)
qed

theorem content_size_limit_witness:
  "length (HTML oversizedEmail) = 10 * 1024 * 1024 + 1 \<and>
   (\<exists>b errors. Validate oversizedEmail = Some (ValidationError b errors) \<and>
      ''html'' \<in> Mapping.keys errors) \<and>
   length (Text oversizedTextEmail) = 10 * 1024 * 1024 + 1 \<and>
   (\<exists>b errors. Validate oversizedTextEmail = Some (ValidationError b errors) \<and>
      ''text'' \<in> Mapping.keys errors) \<and>
   length (HTML boundaryEmail) = 10 * 1024 * 1024 \<and>
   ''html'' \<notin> Mapping.keys (collectErrors boundaryEmail) \<and>
   Validate boundaryEmail = None"
proof -
  have a: "length (HTML oversizedEmail) = 10 * 1024 * 1024 + 1"
    and b: "length (Text oversizedTextEmail) = 10 * 1024 * 1024 + 1"
    and c: "length (HTML boundaryEmail) = 10 * 1024 * 1024"
    by (simp_all add: oversizedEmail_def oversizedTextEmail_def boundaryEmail_def)
  have "Mapping.keys (collectErrors boundaryEmail) = {}"
    by (simp add: collectErrors_keys boundaryEmail_def from_address_valid to_address_valid
        isValidEmail_not_blank [OF from_address_valid]
        isValidEmail_not_blank [OF to_address_valid]
        plain_trim text_trim MaxContentSize_def)
  then have d: "Validate boundaryEmail = None"
    by (simp add: Validate_cases)
  have e: "\<exists>b errors. Validate oversizedEmail = Some (ValidationError b errors) \<and>
      ''html'' \<in> Mapping.keys errors"
    using content_size_limit [of oversizedEmail] a by auto
  have f: "\<exists>b errors. Validate oversizedTextEmail = Some (ValidationError b errors) \<and>
      ''text'' \<in> Mapping.keys errors"
    using content_size_limit [of oversizedTextEmail] b by auto
  have g: "''html'' \<notin> Mapping.keys (collectErrors boundaryEmail)"
    using content_size_limit [of boundaryEmail] c by auto
  show ?thesis
    using a b c d e f g by blast
qed

section \<open>Decoding the example bodies\<close>

lemmas json_eval =
  lexJSON.simps unquote_def unquoteFrom.simps isJSONSpace_def consTok_def HasPrefix_def
  isDigit_def byteIn_def isNumberByte_def

lemmas store_eval = Unmarshal_def matchField_def storeField_def zeroResponse_def

lemma parse_queuedBody:
  "parseJSON queuedBody =
     Some (JObject [(''success'', JBool True), (''message'', JString ''Email queued'')])"
proof -
  have "lexJSON queuedBody =
      Some [LBrace, StringTok ''success'', Colon, TrueTok, Comma,
            StringTok ''message'', Colon, StringTok ''Email queued'', RBrace]"
    by (simp add: queuedBody_def json_eval)
  then show ?thesis by (simp add: parseJSON_def maxNestingDepth_def)
qed

lemma unmarshal_queuedBody:
  "Unmarshal [''success'', ''message'', ''error''] queuedBody =
     (\<lparr>success = True, message = ''Email queued'', error = []\<rparr>, False)"
  by (simp add: parse_queuedBody store_eval)

lemma parse_refusedBody:
  "parseJSON refusedBody =
     Some (JObject [(''success'', JBool False), (''message'', JString ''Not queued''),
                    (''error'', JString ''busy'')])"
proof -
  have "lexJSON refusedBody =
      Some [LBrace, StringTok ''success'', Colon, FalseTok, Comma,
            StringTok ''message'', Colon, StringTok ''Not queued'', Comma,
            StringTok ''error'', Colon, StringTok ''busy'', RBrace]"
    by (simp add: refusedBody_def json_eval)
  then show ?thesis by (simp add: parseJSON_def maxNestingDepth_def)
qed

lemma unmarshal_refusedBody:
  "Unmarshal [''success'', ''message'', ''error''] refusedBody =
     (\<lparr>success = False, message = ''Not queued'', error = ''busy''\<rparr>, False)"
  by (simp add: parse_refusedBody store_eval)

lemma parse_brokenBody: "parseJSON brokenBody = None"
proof -
  have "lexJSON brokenBody = Some [LBrace, StringTok ''success'', Colon, TrueTok, Comma]"
    by (simp add: brokenBody_def json_eval)
  then show ?thesis by (simp add: parseJSON_def maxNestingDepth_def)
qed

lemma unmarshal_brokenBody: "snd (Unmarshal tags brokenBody)"
  by (simp add: parse_brokenBody Unmarshal_def)

lemma parse_expiredTrialBody:
  "parseJSON expiredTrialBody = Some (JObject [(''message'', JString ''Your trial limit has expired'')])"
proof -
  have "lexJSON expiredTrialBody =
      Some [LBrace, StringTok ''message'', Colon, StringTok ''Your trial limit has expired'', RBrace]"
    by (simp add: expiredTrialBody_def json_eval)
  then show ?thesis by (simp add: parseJSON_def maxNestingDepth_def)
qed

lemma parse_trialLimitBody:
  "parseJSON trialLimitBody = Some (JObject [(''message'', JString ''trial limit reached'')])"
proof -
  have "lexJSON trialLimitBody =
      Some [LBrace, StringTok ''message'', Colon, StringTok ''trial limit reached'', RBrace]"
    by (simp add: trialLimitBody_def json_eval)
  then show ?thesis by (simp add: parseJSON_def maxNestingDepth_def)
qed

lemma parse_rateLimitBody:
  "parseJSON rateLimitBody = Some (JObject [(''message'', JString ''Rate limit exceeded'')])"
proof -
  have "lexJSON rateLimitBody =
      Some [LBrace, StringTok ''message'', Colon, StringTok ''Rate limit exceeded'', RBrace]"
    by (simp add: rateLimitBody_def json_eval)
  then show ?thesis by (simp add: parseJSON_def maxNestingDepth_def)
qed

lemma unmarshal_message_only:
  "parseJSON body = Some (JObject [(''message'', JString m)]) \<Longrightarrow>
   Unmarshal [''message'', ''error''] body = (\<lparr>success = False, message = m, error = []\<rparr>, False)"
  by (simp add: store_eval)

section \<open>Facts about the classifier and the client\<close>

lemma HasPrefix_iff: "HasPrefix s p \<longleftrightarrow> (\<exists>b. s = p @ b)"
proof
  assume "HasPrefix s p"
  then have "s = p @ drop (length p) s"
    by (metis HasPrefix_def append_take_drop_id)
  then show "\<exists>b. s = p @ b" ..
next
  assume "\<exists>b. s = p @ b"
  then show "HasPrefix s p" by (auto simp: HasPrefix_def)
qed

lemma Contains_iff: "Contains s sub \<longleftrightarrow> (\<exists>a b. s = a @ sub @ b)"
proof (induction s)
  case Nil
  show ?case by auto
next
  case (Cons c cs)
  show ?case
  proof
    assume "Contains (c # cs) sub"
    then consider "HasPrefix (c # cs) sub" | "Contains cs sub" by auto
    then show "\<exists>a b. c # cs = a @ sub @ b"
    proof cases
      case 1
      then obtain b where "c # cs = sub @ b" by (auto simp: HasPrefix_iff)
      then have "c # cs = [] @ sub @ b" by simp
      then show ?thesis by blast
    next
      case 2
      then obtain a b where "cs = a @ sub @ b" using Cons.IH by auto
      then have "c # cs = (c # a) @ sub @ b" by simp
      then show ?thesis by blast
    qed
  next
    assume "\<exists>a b. c # cs = a @ sub @ b"
    then obtain a b where ab: "c # cs = a @ sub @ b" by auto
    show "Contains (c # cs) sub"
    proof (cases a)
      case Nil
      with ab have "HasPrefix (c # cs) sub" by (auto simp: HasPrefix_iff)
      then show ?thesis by simp
    next
      case (Cons x a')
      with ab have "cs = a' @ sub @ b" by simp
      then have "Contains cs sub" using Cons.IH by auto
      then show ?thesis by simp
    qed
  qed
qed

lemma classify_202: "RespStatusCode resp = 202 \<Longrightarrow> classify url resp body = parseSuccessResponse body"
  by (simp add: classify_def StatusAccepted_def)

lemma classify_402:
  "RespStatusCode resp = 402 \<Longrightarrow> classify url resp body = Inl (parseSubscriptionError body)"
  by (simp add: classify_def StatusAccepted_def StatusBadRequest_def StatusUnauthorized_def
      StatusPaymentRequired_def)

lemma classify_400_422:
  "RespStatusCode resp = 400 \<or> RespStatusCode resp = 422 \<Longrightarrow>
   classify url resp body = Inl (parseValidationError body)"
  by (auto simp: classify_def StatusAccepted_def StatusBadRequest_def StatusUnauthorized_def
      StatusPaymentRequired_def StatusForbidden_def StatusUnprocessableEntity_def)

lemma classify_429:
  "RespStatusCode resp = 429 \<Longrightarrow> classify url resp body = Inl (parseRateLimitError resp body)"
  by (simp add: classify_def StatusAccepted_def StatusBadRequest_def StatusUnauthorized_def
      StatusPaymentRequired_def StatusForbidden_def StatusUnprocessableEntity_def
      StatusTooManyRequests_def)

text \<open>
  Claim C1. For status 202 the classifier decodes the body into the structure with fields
  success, message and error and returns what was decoded as it is (the value of success
  is not changed); when decoding returns an error, the result is a NetworkError with
  message "Failed to parse response". The body \<^verbatim>\<open>{"success":true,"message":"Email queued"}\<close>
  gives a result whose message is "Email queued".
\<close>

theorem classify_accepted:
  "(RespStatusCode resp = 202 \<and> Unmarshal [''success'', ''message'', ''error''] body = (r, False) \<longrightarrow>
      classify url resp body = Inr r) \<and>
   (RespStatusCode resp = 202 \<and> Unmarshal [''success'', ''message'', ''error''] body = (r, True) \<longrightarrow>
      (\<exists>b u. classify url resp body = Inl (NetworkError b u) \<and>
         Message b = ''Failed to parse response'')) \<and>
   (\<exists>r. classify url (response 202 Mapping.empty queuedBody) queuedBody = Inr r \<and>
      message r = ''Email queued'')"
proof (intro conjI impI)
  assume "RespStatusCode resp = 202 \<and> Unmarshal [''success'', ''message'', ''error''] body = (r, False)"
  then show "classify url resp body = Inr r"
    by (simp add: classify_202 parseSuccessResponse_def)
next
  assume "RespStatusCode resp = 202 \<and> Unmarshal [''success'', ''message'', ''error''] body = (r, True)"
  then show "\<exists>b u. classify url resp body = Inl (NetworkError b u) \<and>
         Message b = ''Failed to parse response''"
    by (simp add: classify_202 parseSuccessResponse_def NewNetworkError_def)
next
  have "classify url (response 202 Mapping.empty queuedBody) queuedBody =
      Inr \<lparr>success = True, message = ''Email queued'', error = []\<rparr>"
    by (simp add: classify_202 response_def parseSuccessResponse_def unmarshal_queuedBody)
  then show "\<exists>r. classify url (response 202 Mapping.empty queuedBody) queuedBody = Inr r \<and>
      message r = ''Email queued''"
    by simp
qed

theorem classify_accepted_witness:
  "RespStatusCode (response 202 Mapping.empty refusedBody) = 202 \<and>
   Unmarshal [''success'', ''message'', ''error''] refusedBody =
     (\<lparr>success = False, message = ''Not queued'', error = ''busy''\<rparr>, False) \<and>
   classify [] (response 202 Mapping.empty refusedBody) refusedBody =
     Inr \<lparr>success = False, message = ''Not queued'', error = ''busy''\<rparr> \<and>
   snd (Unmarshal [''success'', ''message'', ''error''] brokenBody) \<and>
   (\<exists>b u. classify [] (response 202 Mapping.empty brokenBody) brokenBody = Inl (NetworkError b u) \<and>
      Message b = ''Failed to parse response'')"
proof -
  have s: "RespStatusCode (response 202 Mapping.empty body) = 202" for body
    by (simp add: response_def)
  obtain r where r: "Unmarshal [''success'', ''message'', ''error''] brokenBody = (r, True)"
    using unmarshal_brokenBody [of "[''success'', ''message'', ''error'']"]
    by (cases "Unmarshal [''success'', ''message'', ''error''] brokenBody") auto
  have a: "classify [] (response 202 Mapping.empty refusedBody) refusedBody =
     Inr \<lparr>success = False, message = ''Not queued'', error = ''busy''\<rparr>"
    using classify_accepted [of "response 202 Mapping.empty refusedBody" refusedBody
        "\<lparr>success = False, message = ''Not queued'', error = ''busy''\<rparr>" "[]"]
      s unmarshal_refusedBody by blast
  have b: "\<exists>b u. classify [] (response 202 Mapping.empty brokenBody) brokenBody = Inl (NetworkError b u) \<and>
      Message b = ''Failed to parse response''"
    using classify_accepted [of "response 202 Mapping.empty brokenBody" brokenBody r "[]"] s r
    by blast
  show ?thesis
    using s a b unmarshal_refusedBody unmarshal_brokenBody by blast
qed
text \<open>
  Claim C3. For status 402 the classifier decodes the body for its message and derives
  the error type by substring search, in this order of precedence: "expired" gives
  subscription_expired, else "trial" gives trial_limit_reached, else "limit" gives
  limit_reached, else unknown. When decoding returns an error, the result is the
  SubscriptionError with message "Subscription error" and error type "unknown".
\<close>

theorem classify_payment_required:
  "(RespStatusCode resp = 402 \<longrightarrow> classify url resp body = Inl (parseSubscriptionError body)) \<and>
   (Unmarshal [''message'', ''error''] body = (r, False) \<longrightarrow>
      (\<exists>b. parseSubscriptionError body =
         SubscriptionError b
           (if \<exists>x y. message r = x @ ''expired'' @ y then ''subscription_expired''
            else if \<exists>x y. message r = x @ ''trial'' @ y then ''trial_limit_reached''
            else if \<exists>x y. message r = x @ ''limit'' @ y then ''limit_reached''
            else ''unknown''))) \<and>
   (Unmarshal [''message'', ''error''] body = (r, True) \<longrightarrow>
      (\<exists>b. parseSubscriptionError body = SubscriptionError b ''unknown'' \<and>
         Message b = ''Subscription error''))"
proof (intro conjI impI)
  assume "RespStatusCode resp = 402"
  then show "classify url resp body = Inl (parseSubscriptionError body)"
    by (rule classify_402)
next
  assume "Unmarshal [''message'', ''error''] body = (r, False)"
  then show "\<exists>b. parseSubscriptionError body =
         SubscriptionError b
           (if \<exists>x y. message r = x @ ''expired'' @ y then ''subscription_expired''
            else if \<exists>x y. message r = x @ ''trial'' @ y then ''trial_limit_reached''
            else if \<exists>x y. message r = x @ ''limit'' @ y then ''limit_reached''
            else ''unknown'')"
    unfolding Contains_iff [symmetric]
    by (simp add: parseSubscriptionError_def NewSubscriptionError_def Let_def)
next
  assume "Unmarshal [''message'', ''error''] body = (r, True)"
  then show "\<exists>b. parseSubscriptionError body = SubscriptionError b ''unknown'' \<and>
         Message b = ''Subscription error''"
    by (simp add: parseSubscriptionError_def NewSubscriptionError_def)
qed

theorem classify_payment_required_witness:
  "RespStatusCode (response 402 Mapping.empty expiredTrialBody) = 402 \<and>
   classify [] (response 402 Mapping.empty expiredTrialBody) expiredTrialBody =
     Inl (parseSubscriptionError expiredTrialBody) \<and>
   Unmarshal [''message'', ''error''] expiredTrialBody =
     (\<lparr>success = False, message = ''Your trial limit has expired'', error = []\<rparr>, False) \<and>
   (\<exists>b. parseSubscriptionError expiredTrialBody = SubscriptionError b ''subscription_expired'') \<and>
   (\<exists>b. parseSubscriptionError trialLimitBody = SubscriptionError b ''trial_limit_reached'') \<and>
   snd (Unmarshal [''message'', ''error''] brokenBody) \<and>
   (\<exists>b. parseSubscriptionError brokenBody = SubscriptionError b ''unknown'' \<and>
      Message b = ''Subscription error'')"
proof -
  have s: "RespStatusCode (response 402 Mapping.empty expiredTrialBody) = 402"
    by (simp add: response_def)
  have u1: "Unmarshal [''message'', ''error''] expiredTrialBody =
     (\<lparr>success = False, message = ''Your trial limit has expired'', error = []\<rparr>, False)"
    by (rule unmarshal_message_only [OF parse_expiredTrialBody])
  have u2: "Unmarshal [''message'', ''error''] trialLimitBody =
     (\<lparr>success = False, message = ''trial limit reached'', error = []\<rparr>, False)"
    by (rule unmarshal_message_only [OF parse_trialLimitBody])
  obtain r where u3: "Unmarshal [''message'', ''error''] brokenBody = (r, True)"
    using unmarshal_brokenBody [of "[''message'', ''error'']"]
    by (cases "Unmarshal [''message'', ''error''] brokenBody") auto
  have e1: "Contains ''Your trial limit has expired'' ''expired''"
    by (simp add: HasPrefix_def)
  have e2: "\<not> Contains ''trial limit reached'' ''expired''" "Contains ''trial limit reached'' ''trial''"
    by (simp_all add: HasPrefix_def)
  note T = classify_payment_required
  have a: "classify [] (response 402 Mapping.empty expiredTrialBody) expiredTrialBody =
     Inl (parseSubscriptionError expiredTrialBody)"
    using T [of "response 402 Mapping.empty expiredTrialBody" "[]" expiredTrialBody] s by blast
  have b: "\<exists>b. parseSubscriptionError expiredTrialBody = SubscriptionError b ''subscription_expired''"
    using T [of resp url expiredTrialBody
        "\<lparr>success = False, message = ''Your trial limit has expired'', error = []\<rparr>"] u1 e1
    by (simp add: Contains_iff)
  have c: "\<exists>b. parseSubscriptionError trialLimitBody = SubscriptionError b ''trial_limit_reached''"
    using T [of resp url trialLimitBody
        "\<lparr>success = False, message = ''trial limit reached'', error = []\<rparr>"] u2 e2
    by (simp add: Contains_iff)
  have d: "\<exists>b. parseSubscriptionError brokenBody = SubscriptionError b ''unknown'' \<and>
      Message b = ''Subscription error''"
    using T [of resp url brokenBody r] u3 by blast
  show ?thesis
    using s a u1 b c d unmarshal_brokenBody by blast
qed

lemma parseValidationError_code:
  "\<exists>b errors. parseValidationError body = ValidationError b errors \<and> Code b = 400"
  by (simp add: parseValidationError_def NewValidationError_def StatusBadRequest_def Let_def
      split: prod.splits)

lemma classify_ValidationError_code:
  assumes "classify url resp body = Inl (ValidationError b errors)"
  shows "Code b = 400"
proof -
  have others: "parseAuthenticationError body \<noteq> ValidationError b errors"
    "parseSubscriptionError body \<noteq> ValidationError b errors"
    "parseAccountSuspendedError body \<noteq> ValidationError b errors"
    "parseRateLimitError resp body \<noteq> ValidationError b errors"
    "parseGenericError (RespStatusCode resp) body url \<noteq> ValidationError b errors"
    "parseSuccessResponse body \<noteq> Inl (ValidationError b errors)"
    by (simp_all add: parseAuthenticationError_def parseSubscriptionError_def
        parseAccountSuspendedError_def parseRateLimitError_def parseGenericError_def
        parseSuccessResponse_def NewAuthenticationError_def NewSubscriptionError_def
        NewAccountSuspendedError_def NewRateLimitError_def NewHTTPError_def
        NewNetworkError_def Let_def split: prod.splits)
  from assms others have "parseValidationError body = ValidationError b errors"
    by (auto simp: classify_def split: if_splits)
  with parseValidationError_code [of body] show ?thesis by auto
qed

lemma Validate_Some_code:
  assumes "Validate email = Some err"
  shows "\<exists>b errors. err = ValidationError b errors \<and> Code b = 400"
  using assms
  by (auto simp: Validate_cases NewValidationError_def StatusBadRequest_def split: if_splits)

lemma SendEmail_invalid:
  "Validate email = Some err \<Longrightarrow> SendEmail p config doer email w = (Inl err, w)"
  by (simp add: SendEmail_def)

text \<open>
  The request that \<^const>\<open>SendEmail\<close> builds for a configuration and an encoded message.
\<close>

lemma SendEmail_valid:
  assumes "Validate email = None"
    and "json_Marshal p email = Some requestBody"
    and "url_accepted p (TrimRightSlash (BaseURL config) @ ''/v1/send-email'')"
  shows "SendEmail p config doer email w =
     (case doer (buildRequest config
                   \<lparr>Method = ''POST'', URL = TrimRightSlash (BaseURL config) @ ''/v1/send-email'',
                    ReqHeader = Mapping.empty, ReqBody = requestBody\<rparr>) w of
        (Inl errText, w') \<Rightarrow>
          (if Contains errText ''timeout''
           then Inl (NewConnectionTimeoutError (wholeSeconds (Timeout config))
                  (TrimRightSlash (BaseURL config) @ ''/v1/send-email''))
           else Inl (NewNetworkError (''Request failed: '' @ errText)
                  (TrimRightSlash (BaseURL config) @ ''/v1/send-email'')), w')
      | (Inr resp, w') \<Rightarrow>
          (case RespBody resp of
             None \<Rightarrow> (Inl (NewNetworkError ''Failed to read response body''
                       (TrimRightSlash (BaseURL config) @ ''/v1/send-email'')), w')
           | Some responseBody \<Rightarrow>
               (classify (TrimRightSlash (BaseURL config) @ ''/v1/send-email'') resp responseBody,
                w')))"
  using assms by (simp add: SendEmail_def NewRequest_def Let_def)

lemma SendEmail_ValidationError_code:
  assumes "SendEmail p config doer email w = (Inl (ValidationError b errors), w')"
  shows "Code b = 400"
proof (cases "Validate email")
  case (Some err)
  with assms have "err = ValidationError b errors"
    by (simp add: SendEmail_invalid)
  with Validate_Some_code [OF Some] show ?thesis by auto
next
  case None
  show ?thesis
  proof (cases "json_Marshal p email")
    case N: None
    with None assms show ?thesis
      by (simp add: SendEmail_def NewNetworkError_def)
  next
    case (Some requestBody)
    show ?thesis
    proof (cases "url_accepted p (TrimRightSlash (BaseURL config) @ ''/v1/send-email'')")
      case False
      with None Some assms show ?thesis
        by (simp add: SendEmail_def NewRequest_def NewNetworkError_def Let_def)
    next
      case True
      from assms show ?thesis
        unfolding SendEmail_valid [OF None Some True]
        by (auto simp: NewNetworkError_def NewConnectionTimeoutError_def Let_def
            split: prod.splits sum.splits option.splits if_splits
            dest: classify_ValidationError_code)
    qed
  qed
qed

text \<open>
  Claim C10. Every ValidationError that a send attempt produces, from the validation of
  the message before any request or from a response with status 400 or 422, reports
  status code 400; a response with status 422 gives a ValidationError with code 400, not
  422.
\<close>

theorem ValidationError_code_400:
  "(SendEmail p config doer email w = (Inl (ValidationError b errors), w') \<longrightarrow>
      StatusCode (ValidationError b errors) = 400) \<and>
   (Validate email = Some err \<longrightarrow>
      fst (SendEmail p config doer email w) = Inl err \<and>
      (\<exists>b errors. err = ValidationError b errors) \<and> StatusCode err = 400) \<and>
   (RespStatusCode resp = 400 \<or> RespStatusCode resp = 422 \<longrightarrow>
      (\<exists>b errors. classify url resp body = Inl (ValidationError b errors) \<and>
         StatusCode (ValidationError b errors) = 400))"
proof (intro conjI impI)
  assume "SendEmail p config doer email w = (Inl (ValidationError b errors), w')"
  then show "StatusCode (ValidationError b errors) = 400"
    by (simp add: StatusCode_def SendEmail_ValidationError_code)
next
  assume v: "Validate email = Some err"
  then show "fst (SendEmail p config doer email w) = Inl err"
    by (simp add: SendEmail_invalid)
  from Validate_Some_code [OF v] show "\<exists>b errors. err = ValidationError b errors"
    by blast
  from Validate_Some_code [OF v] show "StatusCode err = 400"
    by (auto simp: StatusCode_def)
next
  assume "RespStatusCode resp = 400 \<or> RespStatusCode resp = 422"
  then have "classify url resp body = Inl (parseValidationError body)"
    by (rule classify_400_422)
  with parseValidationError_code [of body]
  show "\<exists>b errors. classify url resp body = Inl (ValidationError b errors) \<and>
         StatusCode (ValidationError b errors) = 400"
    by (auto simp: StatusCode_def)
qed

lemma textEmail_valid: "Validate textEmail = None"
proof -
  have "Mapping.keys (collectErrors textEmail) = {}"
    by (simp add: collectErrors_keys textEmail_def from_address_valid to_address_valid
        isValidEmail_not_blank [OF from_address_valid]
        isValidEmail_not_blank [OF to_address_valid]
        plain_trim text_trim MaxContentSize_def)
  then show ?thesis by (simp add: Validate_cases)
qed

lemma missingFrom_invalid:
  "Validate missingFromEmail =
     Some (NewValidationError ''Email validation failed'' (collectErrors missingFromEmail))"
proof -
  have "''from'' \<in> Mapping.keys (collectErrors missingFromEmail)"
    by (simp add: collectErrors_keys missingFromEmail_def TrimSpace_Nil)
  then show ?thesis by (auto simp: Validate_cases)
qed

lemma testURL_built: "TrimRightSlash (BaseURL testConfig) @ ''/v1/send-email'' = testURL"
  by (simp add: TrimRightSlash_def testConfig_def NewConfig_def DefaultBaseURL_def testURL_def)

theorem ValidationError_code_400_witness:
  "Validate missingFromEmail =
     Some (NewValidationError ''Email validation failed'' (collectErrors missingFromEmail)) \<and>
   SendEmail testPlatform testConfig (mockDoer (Inr (response 422 Mapping.empty refusedBody)))
      missingFromEmail [] =
     (Inl (NewValidationError ''Email validation failed'' (collectErrors missingFromEmail)), []) \<and>
   StatusCode (NewValidationError ''Email validation failed'' (collectErrors missingFromEmail)) = 400 \<and>
   RespStatusCode (response 422 Mapping.empty refusedBody) = 422 \<and>
   (\<exists>b errors. classify testURL (response 422 Mapping.empty refusedBody) refusedBody =
        Inl (ValidationError b errors) \<and> StatusCode (ValidationError b errors) = 400) \<and>
   (\<exists>b errors req.
      SendEmail testPlatform testConfig (mockDoer (Inr (response 422 Mapping.empty refusedBody)))
        textEmail [] = (Inl (ValidationError b errors), [req]) \<and>
      StatusCode (ValidationError b errors) = 400)"
proof -
  let ?doer = "mockDoer (Inr (response 422 Mapping.empty refusedBody))"
  let ?err = "NewValidationError ''Email validation failed'' (collectErrors missingFromEmail)"
  have s: "RespStatusCode (response 422 Mapping.empty refusedBody) = 422"
    by (simp add: response_def)
  note T = ValidationError_code_400
  have a: "SendEmail testPlatform testConfig ?doer missingFromEmail [] = (Inl ?err, [])"
    using missingFrom_invalid by (simp add: SendEmail_invalid)
  have b: "StatusCode ?err = 400"
    using T [of p config doer missingFromEmail w b errors w' ?err] missingFrom_invalid by blast
  have c: "\<exists>b errors. classify testURL (response 422 Mapping.empty refusedBody) refusedBody =
        Inl (ValidationError b errors) \<and> StatusCode (ValidationError b errors) = 400"
    using T [of p config doer email w b errors w' err "response 422 Mapping.empty refusedBody"
        testURL refusedBody] s by blast
  then obtain b0 errors0 where c0:
    "classify testURL (response 422 Mapping.empty refusedBody) refusedBody =
        Inl (ValidationError b0 errors0)" by blast
  have m: "json_Marshal testPlatform textEmail = plainMarshal textEmail"
    and u: "url_accepted testPlatform (TrimRightSlash (BaseURL testConfig) @ ''/v1/send-email'')"
    by (simp_all add: testPlatform_def)
  obtain rb where rb: "json_Marshal testPlatform textEmail = Some rb"
    by (simp add: m plainMarshal_def)
  have "\<exists>req. SendEmail testPlatform testConfig ?doer textEmail [] =
      (Inl (ValidationError b0 errors0), [req])"
    unfolding SendEmail_valid [OF textEmail_valid rb u]
    by (simp add: mockDoer_def response_def testURL_built c0 [unfolded response_def])
  then obtain req where d0: "SendEmail testPlatform testConfig ?doer textEmail [] =
      (Inl (ValidationError b0 errors0), [req])" by blast
  have "StatusCode (ValidationError b0 errors0) = 400"
    using T [of testPlatform testConfig ?doer textEmail "[]" b0 errors0 "[req]"] d0 by blast
  with d0 have d: "\<exists>b errors req. SendEmail testPlatform testConfig ?doer textEmail [] =
      (Inl (ValidationError b errors), [req]) \<and> StatusCode (ValidationError b errors) = 400"
    by blast
  show ?thesis using missingFrom_invalid a b s c d by blast
qed

text \<open>
  Claim C9. As stated the claim fails for the timeout variant: when the text of the
  transport error contains "timeout", the NetworkError tagged connection_timeout carries
  code 408 (Request Timeout), not 0.
\<close>

theorem timeout_error_code_408:
  "fst (SendEmail testPlatform testConfig (mockDoer (Inl ''dial tcp 10.0.0.1:443: i/o timeout''))
          textEmail []) =
     Inl (NewConnectionTimeoutError 30 testURL) \<and>
   isNetworkError (NewConnectionTimeoutError 30 testURL) \<and>
   Mapping.lookup (Context (NewConnectionTimeoutError 30 testURL)) ''error_type'' =
     Some (CString ''connection_timeout'') \<and>
   StatusCode (NewConnectionTimeoutError 30 testURL) = 408"
proof -
  have m: "json_Marshal testPlatform textEmail = plainMarshal textEmail"
    and u: "url_accepted testPlatform (TrimRightSlash (BaseURL testConfig) @ ''/v1/send-email'')"
    by (simp_all add: testPlatform_def)
  obtain rb where rb: "json_Marshal testPlatform textEmail = Some rb"
    by (simp add: m plainMarshal_def)
  have c: "Contains ''dial tcp 10.0.0.1:443: i/o timeout'' ''timeout''"
    by (simp add: HasPrefix_def)
  have "fst (SendEmail testPlatform testConfig
          (mockDoer (Inl ''dial tcp 10.0.0.1:443: i/o timeout'')) textEmail []) =
     Inl (NewConnectionTimeoutError 30 testURL)"
    unfolding SendEmail_valid [OF textEmail_valid rb u] testURL_built
    using c
    by (simp add: mockDoer_def testConfig_def NewConfig_def DefaultTimeout_def Second_def
        wholeSeconds_def)
  then show ?thesis
    by (simp add: NewConnectionTimeoutError_def isNetworkError_def Context_def StatusCode_def
        StatusRequestTimeout_def lookup_of_alist)
qed

text \<open>
  Claim C9, amended. Every failure before a status code is obtained gives a NetworkError:
  when the message cannot be encoded or the request cannot be created, when the transport
  returns an error, and when the body of the response cannot be read. Its status code is
  0, except for a transport error whose text contains "timeout": that one gives the
  NetworkError tagged connection_timeout, whose code is 408.
\<close>

theorem transport_failure_codes:
  "(Validate email = None \<and> json_Marshal p email = None \<longrightarrow>
      (\<exists>b u. SendEmail p config doer email w = (Inl (NetworkError b u), w) \<and> Code b = 0)) \<and>
   (Validate email = None \<and> json_Marshal p email = Some rb \<and>
    \<not> url_accepted p (TrimRightSlash (BaseURL config) @ ''/v1/send-email'') \<longrightarrow>
      (\<exists>b u. SendEmail p config doer email w = (Inl (NetworkError b u), w) \<and> Code b = 0)) \<and>
   (Validate email = None \<and> json_Marshal p email = Some rb \<and>
    url_accepted p (TrimRightSlash (BaseURL config) @ ''/v1/send-email'') \<and>
    doer (buildRequest config
            \<lparr>Method = ''POST'', URL = TrimRightSlash (BaseURL config) @ ''/v1/send-email'',
             ReqHeader = Mapping.empty, ReqBody = rb\<rparr>) w = (Inl errText, w') \<longrightarrow>
      (\<exists>b u. SendEmail p config doer email w = (Inl (NetworkError b u), w') \<and>
         StatusCode (NetworkError b u) = (if Contains errText ''timeout'' then 408 else 0) \<and>
         (Mapping.lookup (ContextMap b) ''error_type'' = Some (CString ''connection_timeout'')
            \<longleftrightarrow> Contains errText ''timeout''))) \<and>
   (Validate email = None \<and> json_Marshal p email = Some rb \<and>
    url_accepted p (TrimRightSlash (BaseURL config) @ ''/v1/send-email'') \<and>
    doer (buildRequest config
            \<lparr>Method = ''POST'', URL = TrimRightSlash (BaseURL config) @ ''/v1/send-email'',
             ReqHeader = Mapping.empty, ReqBody = rb\<rparr>) w = (Inr resp, w') \<and>
    RespBody resp = None \<longrightarrow>
      (\<exists>b u. SendEmail p config doer email w = (Inl (NetworkError b u), w') \<and> Code b = 0))"
proof (intro conjI impI; elim conjE)
  assume "Validate email = None" "json_Marshal p email = None"
  then show "\<exists>b u. SendEmail p config doer email w = (Inl (NetworkError b u), w) \<and> Code b = 0"
    by (simp add: SendEmail_def NewNetworkError_def)
next
  assume "Validate email = None" "json_Marshal p email = Some rb"
    "\<not> url_accepted p (TrimRightSlash (BaseURL config) @ ''/v1/send-email'')"
  then show "\<exists>b u. SendEmail p config doer email w = (Inl (NetworkError b u), w) \<and> Code b = 0"
    by (simp add: SendEmail_def NewRequest_def NewNetworkError_def Let_def)
next
  assume a: "Validate email = None" "json_Marshal p email = Some rb"
    "url_accepted p (TrimRightSlash (BaseURL config) @ ''/v1/send-email'')"
    and d: "doer (buildRequest config
            \<lparr>Method = ''POST'', URL = TrimRightSlash (BaseURL config) @ ''/v1/send-email'',
             ReqHeader = Mapping.empty, ReqBody = rb\<rparr>) w = (Inl errText, w')"
  show "\<exists>b u. SendEmail p config doer email w = (Inl (NetworkError b u), w') \<and>
         StatusCode (NetworkError b u) = (if Contains errText ''timeout'' then 408 else 0) \<and>
         (Mapping.lookup (ContextMap b) ''error_type'' = Some (CString ''connection_timeout'')
            \<longleftrightarrow> Contains errText ''timeout'')"
    unfolding SendEmail_valid [OF a] d
    by (simp add: NewNetworkError_def NewConnectionTimeoutError_def StatusCode_def
        StatusRequestTimeout_def lookup_of_alist)
next
  assume a: "Validate email = None" "json_Marshal p email = Some rb"
    "url_accepted p (TrimRightSlash (BaseURL config) @ ''/v1/send-email'')"
    and d: "doer (buildRequest config
            \<lparr>Method = ''POST'', URL = TrimRightSlash (BaseURL config) @ ''/v1/send-email'',
             ReqHeader = Mapping.empty, ReqBody = rb\<rparr>) w = (Inr resp, w')"
    and r: "RespBody resp = None"
  show "\<exists>b u. SendEmail p config doer email w = (Inl (NetworkError b u), w') \<and> Code b = 0"
    unfolding SendEmail_valid [OF a] d
    by (simp add: r NewNetworkError_def)
qed

lemma textEmail_marshalled:
  "json_Marshal testPlatform textEmail = Some (the (plainMarshal textEmail))"
  "json_Marshal noRequestPlatform textEmail = Some (the (plainMarshal textEmail))"
  by (simp_all add: testPlatform_def noRequestPlatform_def plainMarshal_def)

lemma testPlatform_url:
  "url_accepted testPlatform (TrimRightSlash (BaseURL testConfig) @ ''/v1/send-email'')"
  by (simp add: testPlatform_def)

lemma mockDoer_textRequest:
  "mockDoer answer
     (buildRequest testConfig
        \<lparr>Method = ''POST'', URL = TrimRightSlash (BaseURL testConfig) @ ''/v1/send-email'',
         ReqHeader = Mapping.empty, ReqBody = the (plainMarshal textEmail)\<rparr>) [] =
   (answer, [textRequest])"
  by (simp add: mockDoer_def textRequest_def testURL_built)

theorem transport_failure_codes_witness:
  "Validate textEmail = None \<and> json_Marshal noMarshalPlatform textEmail = None \<and>
   (\<exists>b u. SendEmail noMarshalPlatform testConfig (mockDoer (Inl ''connection refused'')) textEmail [] =
      (Inl (NetworkError b u), []) \<and> Code b = 0) \<and>
   \<not> url_accepted noRequestPlatform (TrimRightSlash (BaseURL testConfig) @ ''/v1/send-email'') \<and>
   (\<exists>b u. SendEmail noRequestPlatform testConfig (mockDoer (Inl ''connection refused'')) textEmail [] =
      (Inl (NetworkError b u), []) \<and> Code b = 0) \<and>
   \<not> Contains ''connection refused'' ''timeout'' \<and>
   (\<exists>b u. SendEmail testPlatform testConfig (mockDoer (Inl ''connection refused'')) textEmail [] =
      (Inl (NetworkError b u), [textRequest]) \<and> StatusCode (NetworkError b u) = 0) \<and>
   Contains ''dial tcp 10.0.0.1:443: i/o timeout'' ''timeout'' \<and>
   (\<exists>b u. SendEmail testPlatform testConfig (mockDoer (Inl ''dial tcp 10.0.0.1:443: i/o timeout''))
        textEmail [] = (Inl (NetworkError b u), [textRequest]) \<and>
      StatusCode (NetworkError b u) = 408 \<and>
      Mapping.lookup (ContextMap b) ''error_type'' = Some (CString ''connection_timeout'')) \<and>
   RespBody unreadableResponse = None \<and>
   (\<exists>b u. SendEmail testPlatform testConfig (mockDoer (Inr unreadableResponse)) textEmail [] =
      (Inl (NetworkError b u), [textRequest]) \<and> Code b = 0)"
proof -
  note T = transport_failure_codes
  have v: "Validate textEmail = None" by (rule textEmail_valid)
  have n: "json_Marshal noMarshalPlatform textEmail = None"
    by (simp add: noMarshalPlatform_def)
  have nu: "\<not> url_accepted noRequestPlatform (TrimRightSlash (BaseURL testConfig) @ ''/v1/send-email'')"
    by (simp add: noRequestPlatform_def)
  have c1: "\<not> Contains ''connection refused'' ''timeout''"
    and c2: "Contains ''dial tcp 10.0.0.1:443: i/o timeout'' ''timeout''"
    by (simp_all add: HasPrefix_def)
  have r: "RespBody unreadableResponse = None"
    by (simp add: unreadableResponse_def)
  have a: "\<exists>b u. SendEmail noMarshalPlatform testConfig (mockDoer (Inl ''connection refused''))
      textEmail [] = (Inl (NetworkError b u), []) \<and> Code b = 0"
    using T [of textEmail noMarshalPlatform testConfig "mockDoer (Inl ''connection refused'')" "[]"]
      v n by blast
  have b: "\<exists>b u. SendEmail noRequestPlatform testConfig (mockDoer (Inl ''connection refused''))
      textEmail [] = (Inl (NetworkError b u), []) \<and> Code b = 0"
    using T [of textEmail noRequestPlatform testConfig "mockDoer (Inl ''connection refused'')" "[]"
        "the (plainMarshal textEmail)"]
      v textEmail_marshalled(2) nu by blast
  have c: "\<exists>b u. SendEmail testPlatform testConfig (mockDoer (Inl ''connection refused'')) textEmail [] =
      (Inl (NetworkError b u), [textRequest]) \<and> StatusCode (NetworkError b u) = 0"
    using T [of textEmail testPlatform testConfig "mockDoer (Inl ''connection refused'')" "[]"
        "the (plainMarshal textEmail)" "''connection refused''" "[textRequest]"]
      v textEmail_marshalled(1) testPlatform_url mockDoer_textRequest c1 by auto
  have d: "\<exists>b u. SendEmail testPlatform testConfig (mockDoer (Inl ''dial tcp 10.0.0.1:443: i/o timeout''))
        textEmail [] = (Inl (NetworkError b u), [textRequest]) \<and>
      StatusCode (NetworkError b u) = 408 \<and>
      Mapping.lookup (ContextMap b) ''error_type'' = Some (CString ''connection_timeout'')"
    using T [of textEmail testPlatform testConfig
        "mockDoer (Inl ''dial tcp 10.0.0.1:443: i/o timeout'')" "[]"
        "the (plainMarshal textEmail)" "''dial tcp 10.0.0.1:443: i/o timeout''" "[textRequest]"]
      v textEmail_marshalled(1) testPlatform_url mockDoer_textRequest c2 by auto
  have e: "\<exists>b u. SendEmail testPlatform testConfig (mockDoer (Inr unreadableResponse)) textEmail [] =
      (Inl (NetworkError b u), [textRequest]) \<and> Code b = 0"
    using T [of textEmail testPlatform testConfig "mockDoer (Inr unreadableResponse)" "[]"
        "the (plainMarshal textEmail)" errText "[textRequest]" unreadableResponse]
      v textEmail_marshalled(1) testPlatform_url mockDoer_textRequest r by auto
  show ?thesis
    using v n a nu b c1 c c2 d r e by blast
qed

lemma canonical_names:
  "CanonicalMIMEHeaderKey ''Content-Type'' = ''Content-Type''"
  "CanonicalMIMEHeaderKey ''Accept'' = ''Accept''"
  "CanonicalMIMEHeaderKey ''Authorization'' = ''Authorization''"
  "CanonicalMIMEHeaderKey ''User-Agent'' = ''User-Agent''"
  by (simp_all add: CanonicalMIMEHeaderKey_def validHeaderFieldByte_def byteIn_def
      asciiUpper_def asciiLower_def char_of_def bit_Suc_0_iff)

lemma sendRequest_fields:
  "Method (sendRequest config rb) = ''POST''"
  "URL (sendRequest config rb) = sendURL config"
  "ReqBody (sendRequest config rb) = rb"
  "Header_Get (ReqHeader (sendRequest config rb)) ''Content-Type'' = ''application/json''"
  "Header_Get (ReqHeader (sendRequest config rb)) ''Accept'' = ''application/json''"
  "Header_Get (ReqHeader (sendRequest config rb)) ''Authorization'' = ''Bearer '' @ APIKey config"
  "Header_Get (ReqHeader (sendRequest config rb)) ''User-Agent'' = GetUserAgent config"
  by (simp_all add: sendRequest_def buildRequest_def Let_def Header_Get_def Header_Set_def
      canonical_names)

lemma SendEmail_sends:
  assumes "Validate email = None"
    and "json_Marshal p email = Some rb"
    and "url_accepted p (sendURL config)"
  shows "SendEmail p config doer email w =
     (case doer (sendRequest config rb) w of
        (Inl errText, w') \<Rightarrow>
          (if Contains errText ''timeout''
           then Inl (NewConnectionTimeoutError (wholeSeconds (Timeout config)) (sendURL config))
           else Inl (NewNetworkError (''Request failed: '' @ errText) (sendURL config)), w')
      | (Inr resp, w') \<Rightarrow>
          (case RespBody resp of
             None \<Rightarrow> (Inl (NewNetworkError ''Failed to read response body'' (sendURL config)), w')
           | Some responseBody \<Rightarrow> (classify (sendURL config) resp responseBody, w')))"
  unfolding sendURL_def sendRequest_def
  using assms [unfolded sendURL_def] by (rule SendEmail_valid)

lemma SendEmail_world:
  "snd (SendEmail p config doer email w) =
     (if Validate email = None \<and> json_Marshal p email \<noteq> None \<and> url_accepted p (sendURL config)
      then snd (doer (sendRequest config (the (json_Marshal p email))) w)
      else w)"
proof (cases "Validate email = None \<and> json_Marshal p email \<noteq> None \<and> url_accepted p (sendURL config)")
  case True
  then obtain rb where rb: "json_Marshal p email = Some rb" by auto
  with True show ?thesis
    by (simp add: SendEmail_sends [of email p rb config]
        split: prod.splits sum.splits option.splits)
next
  case False
  then show ?thesis
    by (auto simp: SendEmail_def NewRequest_def sendURL_def Let_def split: option.splits)
qed

text \<open>
  Claim C7. When the message fails validation, \<^const>\<open>SendEmail\<close> returns that validation
  error and leaves the world as it was, whatever the transport is: no call is made. The
  world changes only when validation has passed (and the message was encoded and the
  request created); then it is the world after one call of the transport, on one POST
  request to the send URL carrying the encoded message, and when that call returns a
  response whose body can be read, the result is what the classifier gives for the
  response (its status and headers) and the body.
\<close>

theorem SendEmail_validates_first:
  "(Validate email = Some err \<longrightarrow> SendEmail p config doer email w = (Inl err, w)) \<and>
   (snd (SendEmail p config doer email w) \<noteq> w \<longrightarrow> Validate email = None) \<and>
   (Validate email = None \<and> json_Marshal p email = Some rb \<and> url_accepted p (sendURL config) \<longrightarrow>
      snd (SendEmail p config doer email w) = snd (doer (sendRequest config rb) w) \<and>
      Method (sendRequest config rb) = ''POST'' \<and>
      URL (sendRequest config rb) = sendURL config \<and>
      ReqBody (sendRequest config rb) = rb) \<and>
   (Validate email = None \<and> json_Marshal p email = Some rb \<and> url_accepted p (sendURL config) \<and>
    doer (sendRequest config rb) w = (Inr resp, w') \<and> RespBody resp = Some body \<longrightarrow>
      SendEmail p config doer email w = (classify (sendURL config) resp body, w'))"
proof (intro conjI impI; (elim conjE)?)
  assume "Validate email = Some err"
  then show "SendEmail p config doer email w = (Inl err, w)"
    by (rule SendEmail_invalid)
next
  assume "snd (SendEmail p config doer email w) \<noteq> w"
  then show "Validate email = None"
    by (auto simp: SendEmail_world split: if_splits)
next
  assume a: "Validate email = None" "json_Marshal p email = Some rb"
    "url_accepted p (sendURL config)"
  then show "snd (SendEmail p config doer email w) = snd (doer (sendRequest config rb) w)"
    by (simp add: SendEmail_world)
  show "Method (sendRequest config rb) = ''POST''"
    "URL (sendRequest config rb) = sendURL config"
    "ReqBody (sendRequest config rb) = rb"
    by (simp_all add: sendRequest_fields)
next
  assume a: "Validate email = None" "json_Marshal p email = Some rb"
    "url_accepted p (sendURL config)"
    and d: "doer (sendRequest config rb) w = (Inr resp, w')" "RespBody resp = Some body"
  show "SendEmail p config doer email w = (classify (sendURL config) resp body, w')"
    by (simp add: SendEmail_sends [OF a] d)
qed

lemma testConfig_sends:
  "sendURL testConfig = testURL"
  "sendRequest testConfig (the (plainMarshal textEmail)) = textRequest"
  by (simp_all add: sendURL_def sendRequest_def textRequest_def testURL_built)

theorem SendEmail_validates_first_witness:
  "Validate missingFromEmail =
     Some (NewValidationError ''Email validation failed'' (collectErrors missingFromEmail)) \<and>
   SendEmail testPlatform testConfig (mockDoer (Inr (response 202 Mapping.empty queuedBody)))
       missingFromEmail [] =
     (Inl (NewValidationError ''Email validation failed'' (collectErrors missingFromEmail)), []) \<and>
   Validate textEmail = None \<and>
   json_Marshal testPlatform textEmail = Some (the (plainMarshal textEmail)) \<and>
   url_accepted testPlatform (sendURL testConfig) \<and>
   mockDoer (Inr (response 202 Mapping.empty queuedBody)) textRequest [] =
     (Inr (response 202 Mapping.empty queuedBody), [textRequest]) \<and>
   RespBody (response 202 Mapping.empty queuedBody) = Some queuedBody \<and>
   SendEmail testPlatform testConfig (mockDoer (Inr (response 202 Mapping.empty queuedBody)))
       textEmail [] =
     (classify testURL (response 202 Mapping.empty queuedBody) queuedBody, [textRequest]) \<and>
   snd (SendEmail testPlatform testConfig (mockDoer (Inr (response 202 Mapping.empty queuedBody)))
       textEmail []) \<noteq> [] \<and>
   Method textRequest = ''POST'' \<and> URL textRequest = testURL"
proof -
  let ?doer = "mockDoer (Inr (response 202 Mapping.empty queuedBody))"
  note T = SendEmail_validates_first
  have u: "url_accepted testPlatform (sendURL testConfig)"
    by (simp add: testPlatform_def)
  have m: "?doer textRequest [] = (Inr (response 202 Mapping.empty queuedBody), [textRequest])"
    by (simp add: mockDoer_def)
  have r: "RespBody (response 202 Mapping.empty queuedBody) = Some queuedBody"
    by (simp add: response_def)
  have a: "SendEmail testPlatform testConfig ?doer missingFromEmail [] =
     (Inl (NewValidationError ''Email validation failed'' (collectErrors missingFromEmail)), [])"
    using T [of missingFromEmail _ testPlatform testConfig ?doer "[]"] missingFrom_invalid
    by blast
  have b: "SendEmail testPlatform testConfig ?doer textEmail [] =
     (classify testURL (response 202 Mapping.empty queuedBody) queuedBody, [textRequest])"
    using T [of textEmail err testPlatform testConfig ?doer "[]" "the (plainMarshal textEmail)"
        "response 202 Mapping.empty queuedBody" "[textRequest]" queuedBody]
      textEmail_valid textEmail_marshalled(1) u m r
    by (simp add: testConfig_sends)
  have c: "Method textRequest = ''POST''" "URL textRequest = testURL"
    using T [of textEmail err testPlatform testConfig ?doer "[]" "the (plainMarshal textEmail)"]
      textEmail_valid textEmail_marshalled(1) u
    by (simp_all add: testConfig_sends)
  have d: "snd (SendEmail testPlatform testConfig ?doer textEmail []) \<noteq> []"
    by (simp add: b)
  show ?thesis
    using missingFrom_invalid a textEmail_valid textEmail_marshalled(1) u m r b c d by blast
qed

section \<open>Facts about headers and integers\<close>

lemma asciiLower_code:
  "(of_char (asciiLower c) :: nat) =
     (if byteIn (CHR ''A'') (CHR ''Z'') c then of_char c + 32 else of_char c)"
  by (simp add: asciiLower_def byteIn_def)

lemma char_eq_code: "(c = d) = ((of_char c :: nat) = of_char d)"
  by auto

lemma asciiLower_facts:
  "validHeaderFieldByte (asciiLower c) = validHeaderFieldByte c"
  "asciiUpper (asciiLower c) = asciiUpper c"
  "asciiLower (asciiLower c) = asciiLower c"
  "(asciiLower c = CHR ''-'') = (c = CHR ''-'')"
proof -
  show "asciiUpper (asciiLower c) = asciiUpper c"
    by (auto simp: asciiLower_def asciiUpper_def byteIn_def)
  show "asciiLower (asciiLower c) = asciiLower c"
    by (auto simp: asciiLower_def byteIn_def)
  show "(asciiLower c = CHR ''-'') = (c = CHR ''-'')"
    unfolding char_eq_code [of "asciiLower c"] char_eq_code [of c] asciiLower_code
    by (auto simp: byteIn_def)
  show "validHeaderFieldByte (asciiLower c) = validHeaderFieldByte c"
  proof (cases "byteIn (CHR ''A'') (CHR ''Z'') c")
    case True
    then have "byteIn (CHR ''a'') (CHR ''z'') (asciiLower c)"
      unfolding byteIn_def asciiLower_code by (simp add: byteIn_def)
    with True show ?thesis by (simp add: validHeaderFieldByte_def)
  next
    case False
    then show ?thesis by (simp add: asciiLower_def)
  qed
qed

lemma canonicalBytes_fold: "canonicalBytes u (map asciiLower s) = canonicalBytes u s"
  by (induction s arbitrary: u) (simp_all add: asciiLower_facts)

lemma valid_fold: "list_all validHeaderFieldByte (map asciiLower s) = list_all validHeaderFieldByte s"
  by (induction s) (simp_all add: asciiLower_facts)

lemma canonical_fold:
  assumes "map asciiLower name' = map asciiLower name"
  shows "CanonicalMIMEHeaderKey name' = CanonicalMIMEHeaderKey name \<or>
         \<not> list_all validHeaderFieldByte name"
proof -
  have "list_all validHeaderFieldByte name' = list_all validHeaderFieldByte name"
    using assms valid_fold [of name] valid_fold [of name'] by simp
  moreover have "canonicalBytes True name' = canonicalBytes True name"
    using assms canonicalBytes_fold [of True name] canonicalBytes_fold [of True name'] by simp
  ultimately show ?thesis by (simp add: CanonicalMIMEHeaderKey_def)
qed

lemma Header_Get_fold:
  assumes "list_all validHeaderFieldByte name" and "map asciiLower name' = map asciiLower name"
  shows "Header_Get h name' = Header_Get h name"
    and "Header_Get (Header_Set h name' v) name = v"
  using canonical_fold [OF assms(2)] assms(1)
  by (simp_all add: Header_Get_def Header_Set_def)

lemma digitsValue_digits: "digitsValue ds acc = Some v \<Longrightarrow> list_all isDigit ds"
  by (induction ds arbitrary: acc) (auto split: if_splits)

lemma Atoi_numeric: "Atoi s \<noteq> None \<Longrightarrow> numeric s"
  by (auto simp: Atoi_def ParseInt_def numeric_def unsignedPart_def Let_def
      split: if_splits option.splits dest: digitsValue_digits)

lemma Atoi_range: "Atoi s = Some v \<Longrightarrow> - (2 ^ 63) \<le> v \<and> v < 2 ^ 63"
  by (auto simp: Atoi_def ParseInt_def Let_def split: if_splits option.splits)

lemma Atoi_Nil: "Atoi [] = None"
  by (simp add: Atoi_def ParseInt_def)

lemma headerValue_cases:
  "(if Header_Get h name \<noteq> []
    then (case Atoi (Header_Get h name) of Some val \<Rightarrow> val | None \<Rightarrow> 0) else 0) =
   headerValue h name"
  "(if Header_Get h name \<noteq> []
    then (case ParseInt (Header_Get h name) 64 of Some val \<Rightarrow> val | None \<Rightarrow> 0) else 0) =
   headerValue h name"
  by (auto simp: headerValue_def Atoi_Nil) (simp_all add: Atoi_def)

lemma parseRateLimitError_eq:
  "parseRateLimitError resp body =
     NewRateLimitError
       (if message (fst (Unmarshal [''message'', ''error''] body)) = []
        then ''Rate limit exceeded. Retry after ''
               @ Sprintf_d (headerValue (RespHeader resp) ''retry-after'') @ '' seconds.''
        else message (fst (Unmarshal [''message'', ''error''] body)))
       (headerValue (RespHeader resp) ''retry-after'')
       (headerValue (RespHeader resp) ''ratelimit-limit'')
       (headerValue (RespHeader resp) ''ratelimit-remaining'')
       (headerValue (RespHeader resp) ''ratelimit-reset'')"
  unfolding parseRateLimitError_def Let_def headerValue_cases
  by (simp split: prod.splits)

lemma rateLimit_values:
  "headerValue rateLimitHeader ''retry-after'' = 60"
  "headerValue rateLimitHeader ''ratelimit-limit'' = 100"
  "headerValue rateLimitHeader ''ratelimit-remaining'' = 0"
  "headerValue rateLimitHeader ''ratelimit-reset'' = 1678886400"
proof -
  have g: "Header_Get rateLimitHeader ''retry-after'' = ''60''"
    "Header_Get rateLimitHeader ''ratelimit-limit'' = ''100''"
    "Header_Get rateLimitHeader ''ratelimit-remaining'' = ''0''"
    "Header_Get rateLimitHeader ''ratelimit-reset'' = ''1678886400''"
    by (simp_all add: Header_Get_def rateLimitHeader_def lookup_of_alist
        CanonicalMIMEHeaderKey_def validHeaderFieldByte_def byteIn_def
        asciiUpper_def asciiLower_def char_of_def bit_Suc_0_iff)
  show "headerValue rateLimitHeader ''retry-after'' = 60"
    "headerValue rateLimitHeader ''ratelimit-limit'' = 100"
    "headerValue rateLimitHeader ''ratelimit-remaining'' = 0"
    "headerValue rateLimitHeader ''ratelimit-reset'' = 1678886400"
    by (simp_all add: headerValue_def g Atoi_def ParseInt_def isDigit_def byteIn_def)
qed

text \<open>
  Claim C4. For status 429 the classifier reads the headers retry-after, ratelimit-limit
  and ratelimit-remaining as integers and ratelimit-reset as a 64-bit integer, each 0 when
  the header is absent or not numeric; the header is found whatever the case of its name.
  An error of decoding the body is ignored, and when the decoded message is empty the
  message is "Rate limit exceeded. Retry after N seconds." with N the retry-after value.
  The response with Retry-After 60, Ratelimit-Limit 100, Ratelimit-Remaining 0,
  Ratelimit-Reset 1678886400 and body \<^verbatim>\<open>{"message":"Rate limit exceeded"}\<close> gives the
  RateLimitError with these four values.
\<close>

theorem classify_rate_limited:
  "(RespStatusCode resp = 429 \<longrightarrow> classify url resp body = Inl (parseRateLimitError resp body)) \<and>
   (\<exists>b. parseRateLimitError resp body =
        RateLimitError b
          (headerValue (RespHeader resp) ''retry-after'')
          (headerValue (RespHeader resp) ''ratelimit-limit'')
          (headerValue (RespHeader resp) ''ratelimit-remaining'')
          (headerValue (RespHeader resp) ''ratelimit-reset'') \<and>
      Message b =
        (if message (fst (Unmarshal [''message'', ''error''] body)) = []
         then ''Rate limit exceeded. Retry after ''
                @ Sprintf_d (headerValue (RespHeader resp) ''retry-after'') @ '' seconds.''
         else message (fst (Unmarshal [''message'', ''error''] body)))) \<and>
   (Mapping.lookup h (CanonicalMIMEHeaderKey name) = None \<or> \<not> numeric (Header_Get h name) \<longrightarrow>
      headerValue h name = 0) \<and>
   - (2 ^ 63) \<le> headerValue h name \<and> headerValue h name < 2 ^ 63 \<and>
   (list_all validHeaderFieldByte name \<and> map asciiLower name' = map asciiLower name \<longrightarrow>
      Header_Get h name' = Header_Get h name \<and> Header_Get (Header_Set h name' v) name = v) \<and>
   (\<exists>b. classify url (response 429 rateLimitHeader rateLimitBody) rateLimitBody =
        Inl (RateLimitError b 60 100 0 1678886400))"
proof (intro conjI impI)
  assume "RespStatusCode resp = 429"
  then show "classify url resp body = Inl (parseRateLimitError resp body)"
    by (rule classify_429)
next
  show "\<exists>b. parseRateLimitError resp body =
        RateLimitError b
          (headerValue (RespHeader resp) ''retry-after'')
          (headerValue (RespHeader resp) ''ratelimit-limit'')
          (headerValue (RespHeader resp) ''ratelimit-remaining'')
          (headerValue (RespHeader resp) ''ratelimit-reset'') \<and>
      Message b =
        (if message (fst (Unmarshal [''message'', ''error''] body)) = []
         then ''Rate limit exceeded. Retry after ''
                @ Sprintf_d (headerValue (RespHeader resp) ''retry-after'') @ '' seconds.''
         else message (fst (Unmarshal [''message'', ''error''] body)))"
    unfolding parseRateLimitError_eq by (simp add: NewRateLimitError_def)
next
  assume a: "Mapping.lookup h (CanonicalMIMEHeaderKey name) = None \<or> \<not> numeric (Header_Get h name)"
  have "\<not> numeric []" by (simp add: numeric_def unsignedPart_def)
  with a have "\<not> numeric (Header_Get h name)"
    by (auto simp: Header_Get_def)
  then have "Atoi (Header_Get h name) = None"
    using Atoi_numeric by blast
  then show "headerValue h name = 0" by (simp add: headerValue_def)
next
  show "- (2 ^ 63) \<le> headerValue h name" "headerValue h name < 2 ^ 63"
    using Atoi_range [of "Header_Get h name"]
    by (auto simp: headerValue_def split: option.splits)
next
  assume "list_all validHeaderFieldByte name \<and> map asciiLower name' = map asciiLower name"
  then show "Header_Get h name' = Header_Get h name" "Header_Get (Header_Set h name' v) name = v"
    using Header_Get_fold by blast+
next
  have "RespStatusCode (response 429 rateLimitHeader rateLimitBody) = 429"
    "RespHeader (response 429 rateLimitHeader rateLimitBody) = rateLimitHeader"
    by (simp_all add: response_def)
  then show "\<exists>b. classify url (response 429 rateLimitHeader rateLimitBody) rateLimitBody =
        Inl (RateLimitError b 60 100 0 1678886400)"
    by (simp add: classify_429 parseRateLimitError_eq rateLimit_values NewRateLimitError_def)
qed

lemma rateLimit_lookup:
  "Mapping.lookup rateLimitHeader (CanonicalMIMEHeaderKey ''x-request-id'') = None"
  "list_all validHeaderFieldByte ''retry-after''"
  "map asciiLower ''RETRY-After'' = map asciiLower ''retry-after''"
  by (simp_all add: rateLimitHeader_def lookup_of_alist CanonicalMIMEHeaderKey_def
      validHeaderFieldByte_def byteIn_def asciiUpper_def asciiLower_def char_of_def
      bit_Suc_0_iff)

theorem classify_rate_limited_witness:
  "RespStatusCode (response 429 rateLimitHeader rateLimitBody) = 429 \<and>
   classify testURL (response 429 rateLimitHeader rateLimitBody) rateLimitBody =
     Inl (parseRateLimitError (response 429 rateLimitHeader rateLimitBody) rateLimitBody) \<and>
   (\<exists>b. parseRateLimitError (response 429 rateLimitHeader rateLimitBody) rateLimitBody =
        RateLimitError b 60 100 0 1678886400 \<and> Message b = ''Rate limit exceeded'') \<and>
   (\<exists>b. parseRateLimitError (response 429 rateLimitHeader brokenBody) brokenBody =
        RateLimitError b 60 100 0 1678886400 \<and>
        Message b = ''Rate limit exceeded. Retry after 60 seconds.'') \<and>
   Mapping.lookup rateLimitHeader (CanonicalMIMEHeaderKey ''x-request-id'') = None \<and>
   headerValue rateLimitHeader ''x-request-id'' = 0 \<and>
   list_all validHeaderFieldByte ''retry-after'' \<and>
   map asciiLower ''RETRY-After'' = map asciiLower ''retry-after'' \<and>
   Header_Get rateLimitHeader ''RETRY-After'' = Header_Get rateLimitHeader ''retry-after'' \<and>
   Header_Get (Header_Set Mapping.empty ''RETRY-After'' ''7'') ''retry-after'' = ''7''"
proof -
  let ?r = "response 429 rateLimitHeader rateLimitBody"
  let ?r' = "response 429 rateLimitHeader brokenBody"
  note T = classify_rate_limited
  have s: "RespStatusCode ?r = 429" "RespHeader ?r = rateLimitHeader"
    "RespHeader ?r' = rateLimitHeader"
    by (simp_all add: response_def)
  have u: "Unmarshal [''message'', ''error''] rateLimitBody =
     (\<lparr>success = False, message = ''Rate limit exceeded'', error = []\<rparr>, False)"
    by (rule unmarshal_message_only [OF parse_rateLimitBody])
  have u': "Unmarshal [''message'', ''error''] brokenBody = (zeroResponse, True)"
    by (simp add: Unmarshal_def parse_brokenBody)
  have d: "Sprintf_d 60 = ''60''"
    by (simp add: Sprintf_d_def natToDecimal.simps)
  have a: "classify testURL ?r rateLimitBody = Inl (parseRateLimitError ?r rateLimitBody)"
    using T [of ?r testURL rateLimitBody] s(1) by blast
  have b: "\<exists>b. parseRateLimitError ?r rateLimitBody = RateLimitError b 60 100 0 1678886400 \<and>
      Message b = ''Rate limit exceeded''"
    using T [of ?r testURL rateLimitBody] by (simp add: s rateLimit_values u)
  have c: "\<exists>b. parseRateLimitError ?r' brokenBody = RateLimitError b 60 100 0 1678886400 \<and>
      Message b = ''Rate limit exceeded. Retry after 60 seconds.''"
    using T [of ?r' testURL brokenBody] by (simp add: s rateLimit_values u' zeroResponse_def d)
  have e: "headerValue rateLimitHeader ''x-request-id'' = 0"
    using T [of resp url body rateLimitHeader "''x-request-id''"] rateLimit_lookup(1) by blast
  have f: "Header_Get rateLimitHeader ''RETRY-After'' = Header_Get rateLimitHeader ''retry-after''"
    "Header_Get (Header_Set Mapping.empty ''RETRY-After'' ''7'') ''retry-after'' = ''7''"
    using T [of resp url body rateLimitHeader "''retry-after''" "''RETRY-After''"]
      T [of resp url body Mapping.empty "''retry-after''" "''RETRY-After''" "''7''"]
      rateLimit_lookup(2,3) by blast+
  show ?thesis
    using s(1) a b c e f rateLimit_lookup by blast
qed

section \<open>The matcher decides the language of the pattern\<close>

lemma conc_Nil: "[] \<in> conc A B \<longleftrightarrow> [] \<in> A \<and> [] \<in> B"
  by (auto simp: conc_def)

lemma conc_Cons:
  "c # w \<in> conc A B \<longleftrightarrow>
     ([] \<in> A \<and> c # w \<in> B) \<or> (\<exists>u v. w = u @ v \<and> c # u \<in> A \<and> v \<in> B)"
proof
  assume "c # w \<in> conc A B"
  then obtain a b where ab: "c # w = a @ b" "a \<in> A" "b \<in> B"
    by (auto simp: conc_def)
  show "([] \<in> A \<and> c # w \<in> B) \<or> (\<exists>u v. w = u @ v \<and> c # u \<in> A \<and> v \<in> B)"
  proof (cases a)
    case Nil
    with ab show ?thesis by simp
  next
    case (Cons x u)
    with ab have "w = u @ b" "c # u \<in> A" by auto
    with ab(3) show ?thesis by blast
  qed
next
  assume "([] \<in> A \<and> c # w \<in> B) \<or> (\<exists>u v. w = u @ v \<and> c # u \<in> A \<and> v \<in> B)"
  then show "c # w \<in> conc A B"
  proof
    assume "[] \<in> A \<and> c # w \<in> B"
    then have "[] @ (c # w) \<in> conc A B" unfolding conc_def by blast
    then show ?thesis by simp
  next
    assume "\<exists>u v. w = u @ v \<and> c # u \<in> A \<and> v \<in> B"
    then obtain u v where "w = u @ v" "c # u \<in> A" "v \<in> B" by blast
    then have "(c # u) @ v \<in> conc A B" unfolding conc_def by blast
    with \<open>w = u @ v\<close> show ?thesis by simp
  qed
qed

lemma star_Cons:
  "c # w \<in> star A \<longleftrightarrow> (\<exists>u v. w = u @ v \<and> c # u \<in> A \<and> v \<in> star A)"
proof
  assume "c # w \<in> star A"
  then show "\<exists>u v. w = u @ v \<and> c # u \<in> A \<and> v \<in> star A"
  proof (induction "c # w" rule: star.induct)
    case (star_step a v)
    show ?case
    proof (cases a)
      case Nil
      with star_step show ?thesis by simp
    next
      case (Cons x u)
      with star_step have "w = u @ v" "c # u \<in> A" by auto
      with star_step(2) show ?thesis by blast
    qed
  qed
next
  assume "\<exists>u v. w = u @ v \<and> c # u \<in> A \<and> v \<in> star A"
  then obtain u v where "w = u @ v" "c # u \<in> A" "v \<in> star A" by blast
  then have "(c # u) @ v \<in> star A" by (intro star.star_step)
  with \<open>w = u @ v\<close> show "c # w \<in> star A" by simp
qed

lemma nullable_lang: "nullable r \<longleftrightarrow> [] \<in> lang r"
  by (induction r) (auto simp: conc_Nil intro: star.star_Nil)

lemma conc_iff: "w \<in> conc A B \<longleftrightarrow> (\<exists>u v. w = u @ v \<and> u \<in> A \<and> v \<in> B)"
  by (auto simp: conc_def)

lemma deriv_lang: "w \<in> lang (deriv c r) \<longleftrightarrow> c # w \<in> lang r"
proof (induction r arbitrary: w)
  case (Seq r s)
  have "w \<in> lang (deriv c (Seq r s)) \<longleftrightarrow>
      (\<exists>u v. w = u @ v \<and> u \<in> lang (deriv c r) \<and> v \<in> lang s) \<or>
      (nullable r \<and> w \<in> lang (deriv c s))"
    by (auto simp: conc_iff)
  also have "\<dots> \<longleftrightarrow>
      (\<exists>u v. w = u @ v \<and> c # u \<in> lang r \<and> v \<in> lang s) \<or>
      ([] \<in> lang r \<and> c # w \<in> lang s)"
    by (simp add: Seq.IH nullable_lang)
  also have "\<dots> \<longleftrightarrow> c # w \<in> lang (Seq r s)"
    by (auto simp: conc_Cons)
  finally show ?case .
next
  case (Star r)
  have "w \<in> lang (deriv c (Star r)) \<longleftrightarrow>
      (\<exists>u v. w = u @ v \<and> u \<in> lang (deriv c r) \<and> v \<in> star (lang r))"
    by (simp add: conc_iff)
  also have "\<dots> \<longleftrightarrow> (\<exists>u v. w = u @ v \<and> c # u \<in> lang r \<and> v \<in> star (lang r))"
    by (simp add: Star.IH)
  also have "\<dots> \<longleftrightarrow> c # w \<in> lang (Star r)"
    by (simp add: star_Cons)
  finally show ?case .
qed auto

lemma MatchString_lang: "MatchString r w \<longleftrightarrow> w \<in> lang r"
proof (induction w arbitrary: r)
  case Nil
  show ?case by (simp add: MatchString_def nullable_lang)
next
  case (Cons c w)
  have "MatchString r (c # w) = MatchString (deriv c r) w"
    by (simp add: MatchString_def)
  then show ?case by (simp add: Cons.IH deriv_lang)
qed

lemma star_Class:
  "list_all (inClass rs) w \<Longrightarrow> w \<in> star (lang (Class rs))"
proof (induction w)
  case Nil
  show ?case by (rule star.star_Nil)
next
  case (Cons c w)
  then have "[c] \<in> lang (Class rs)" "w \<in> star (lang (Class rs))" by auto
  then have "[c] @ w \<in> star (lang (Class rs))" by (rule star.star_step)
  then show ?case by simp
qed

lemma Plus_Class:
  assumes "w \<noteq> []" and "list_all (inClass rs) w"
  shows "w \<in> lang (Plus (Class rs))"
proof -
  obtain c u where w: "w = c # u" using assms(1) by (cases w) auto
  from w assms(2) have "list_all (inClass rs) u" by simp
  then have "u \<in> star (lang (Class rs))" by (rule star_Class)
  moreover from w assms(2) have "[c] \<in> lang (Class rs)" by simp
  ultimately have "[c] @ u \<in> conc (lang (Class rs)) (star (lang (Class rs)))"
    unfolding conc_def by blast
  then show ?thesis by (simp add: w Plus_def)
qed

lemma concI: "a \<in> A \<Longrightarrow> b \<in> B \<Longrightarrow> a @ b \<in> conc A B"
  unfolding conc_def by blast

lemma Lit_lang: "[c] \<in> lang (Lit c)"
  by (simp add: Lit_def inClass_def byteIn_def)

lemma final_label_lang:
  assumes "2 \<le> length t" and "list_all (inClass alphaClass) t"
  shows "t \<in> lang (Seq (Class alphaClass) (Seq (Class alphaClass) (Star (Class alphaClass))))"
proof -
  obtain a b u where t: "t = a # b # u"
    using assms(1) by (cases t; cases "tl t") auto
  from t assms(2) have "list_all (inClass alphaClass) u" by simp
  then have "u \<in> star (lang (Class alphaClass))" by (rule star_Class)
  then have "u \<in> lang (Star (Class alphaClass))" by simp
  moreover from t assms(2) have "[a] \<in> lang (Class alphaClass)" "[b] \<in> lang (Class alphaClass)"
    by simp_all
  ultimately have "[a] @ [b] @ u \<in>
      lang (Seq (Class alphaClass) (Seq (Class alphaClass) (Star (Class alphaClass))))"
    unfolding lang.simps by (intro concI)
  then show ?thesis by (simp add: t)
qed

lemma emailRegex_match:
  assumes "l \<noteq> []" and "list_all (inClass localClass) l"
    and "pre \<noteq> []" and "list_all (inClass domainClass) pre"
    and "2 \<le> length t" and "list_all (inClass alphaClass) t"
  shows "MatchString emailRegex (l @ ''@'' @ pre @ ''.'' @ t)"
proof -
  have "l @ [CHR ''@''] @ pre @ [CHR ''.''] @ t \<in> lang emailRegex"
    unfolding emailRegex_def lang.simps(5)
    by (intro concI Plus_Class Lit_lang final_label_lang assms
        final_label_lang [unfolded lang.simps(5)])
  then show ?thesis by (simp add: MatchString_lang)
qed

section \<open>Splitting and joining\<close>

lemma Split_not_Nil: "Split s c \<noteq> []"
  by (induction s) (simp_all add: pushByte_def)

lemma Split_none: "c \<notin> set s \<Longrightarrow> Split s c = [s]"
  by (induction s) (auto simp: pushByte_def)

lemma Split_append_sep: "c \<notin> set a \<Longrightarrow> Split (a @ c # b) c = a # Split b c"
  by (induction a) (auto simp: pushByte_def)

lemma Split_no_sep: "p \<in> set (Split s c) \<Longrightarrow> c \<notin> set p"
proof (induction s arbitrary: p)
  case Nil
  then show ?case by simp
next
  case (Cons x xs)
  show ?case
  proof (cases "x = c")
    case True
    with Cons show ?thesis by auto
  next
    case False
    obtain q qs where q: "Split xs c = q # qs"
      using Split_not_Nil [of xs c] by (cases "Split xs c") auto
    with False Cons.prems have "p = x # q \<or> p \<in> set qs"
      by (simp add: pushByte_def)
    with False q Cons.IH show ?thesis by auto
  qed
qed

lemma Join_Cons_Cons: "Join ((x # p) # ps) sep = x # Join (p # ps) sep"
  by (cases ps) simp_all

lemma Join_Split: "Join (Split s c) [c] = s"
proof (induction s)
  case Nil
  show ?case by simp
next
  case (Cons x xs)
  obtain q qs where q: "Split xs c = q # qs"
    using Split_not_Nil [of xs c] by (cases "Split xs c") auto
  with Cons show ?case
    by (simp add: pushByte_def Join_Cons_Cons)
qed

lemma Split_Join:
  "ps \<noteq> [] \<Longrightarrow> \<forall>p\<in>set ps. c \<notin> set p \<Longrightarrow> Split (Join ps [c]) c = ps"
proof (induction ps "[c]" rule: Join.induct)
  case 1
  then show ?case by simp
next
  case (2 p)
  then show ?case by (simp add: Split_none)
next
  case (3 p q ps)
  then show ?case by (simp add: Split_append_sep)
qed

lemma Join_snoc: "xs \<noteq> [] \<Longrightarrow> Join (xs @ [y]) sep = Join xs sep @ sep @ y"
  by (induction xs sep rule: Join.induct) simp_all

lemma set_Join: "set (Join ps sep) \<subseteq> set sep \<union> \<Union> (set ` set ps)"
  by (induction ps sep rule: Join.induct) auto

lemma Join_not_Nil: "ps \<noteq> [] \<Longrightarrow> hd ps \<noteq> [] \<Longrightarrow> Join ps sep \<noteq> []"
  by (induction ps sep rule: Join.induct) simp_all

lemma Split_two:
  assumes "length (Split t c) = 2"
  shows "t = Split t c ! 0 @ [c] @ Split t c ! 1"
    and "c \<notin> set (Split t c ! 0)" and "c \<notin> set (Split t c ! 1)"
proof -
  obtain p q where pq: "Split t c = [p, q]"
    using assms by (cases "Split t c"; cases "tl (Split t c)") auto
  from Join_Split [of t c] show "t = Split t c ! 0 @ [c] @ Split t c ! 1"
    by (simp add: pq)
  from Split_no_sep [of p t c] Split_no_sep [of q t c]
  show "c \<notin> set (Split t c ! 0)" "c \<notin> set (Split t c ! 1)"
    by (simp_all add: pq)
qed

section \<open>The grammar against the validator\<close>

lemma byteIn_single: "byteIn x x c = (c = x)"
  by (auto simp: byteIn_def)

lemma class_chars:
  "inClass localClass c = localPartChar c"
  "inClass domainClass c = (labelChar c \<or> c = CHR ''.'')"
  "inClass alphaClass c = isAlpha c"
  by (auto simp: localPartChar_def labelChar_def isAlpha_def isDigit_def inClass_def
      localClass_def domainClass_def alphaClass_def byteIn_single)

lemma outside_grammar:
  "\<not> localPartChar (CHR ''@'')"
  "\<not> labelChar (CHR ''@'')"
  "\<not> labelChar (CHR ''.'')"
  "list_all (\<lambda>x. \<not> localPartChar x) (map hd spaceRunes)"
  "list_all (\<lambda>x. \<not> isAlpha x) (map last spaceRunes)"
  by (simp_all add: localPartChar_def labelChar_def isAlpha_def isDigit_def byteIn_def
      spaceRunes_def)

lemma grammar_chars:
  "localPartChar c \<Longrightarrow> c \<noteq> CHR ''@'' \<and> c \<notin> set (map hd spaceRunes)"
  "labelChar c \<Longrightarrow> c \<noteq> CHR ''@'' \<and> c \<noteq> CHR ''.''"
  "isAlpha c \<Longrightarrow> labelChar c \<and> c \<notin> set (map last spaceRunes)"
proof -
  show "c \<noteq> CHR ''@'' \<and> c \<notin> set (map hd spaceRunes)" if "localPartChar c"
    using that outside_grammar(1,4) unfolding list_all_iff by blast
  show "c \<noteq> CHR ''@'' \<and> c \<noteq> CHR ''.''" if "labelChar c"
    using that outside_grammar(2,3) by blast
  show "labelChar c \<and> c \<notin> set (map last spaceRunes)" if "isAlpha c"
    using that outside_grammar(5) unfolding list_all_iff labelChar_def by blast
qed

lemma class_funs: "inClass localClass = localPartChar" "inClass alphaClass = isAlpha"
  by (auto simp: class_chars)

lemma grammar_valid:
  assumes g: "matchesGrammar l labels final"
    and r: "\<not> additionalReject l (Join (labels @ [final]) ''.'') (labels @ [final])"
    and n: "length (address l labels final) \<le> 254"
  shows "isValidEmail (address l labels final)"
proof -
  let ?d = "Join (labels @ [final]) ''.''"
  let ?s = "l @ ''@'' @ ?d"
  from g have l: "l \<noteq> []" "list_all localPartChar l"
    and lb: "labels \<noteq> []" "list_all (\<lambda>x. x \<noteq> [] \<and> list_all labelChar x) labels"
    and f: "2 \<le> length final" "list_all isAlpha final"
    by (simp_all add: matchesGrammar_def)
  have fl: "list_all labelChar final"
    using f(2) grammar_chars(3) by (auto simp: list_all_iff)
  have parts: "\<forall>p\<in>set (labels @ [final]). list_all labelChar p"
    using lb(2) fl by (auto simp: list_all_iff)
  then have no_dot: "\<forall>p\<in>set (labels @ [final]). CHR ''.'' \<notin> set p"
    using grammar_chars(2) by (auto simp: list_all_iff)
  have d_split: "Split ?d (CHR ''.'') = labels @ [final]"
    using Split_Join [of "labels @ [final]" "CHR ''.''"] no_dot by simp
  have d_chars: "labelChar c \<or> c = CHR ''.''" if "c \<in> set ?d" for c
    using set_Join [of "labels @ [final]" "''.''"] that parts
    by (auto simp: list_all_iff)
  have no_at_d: "CHR ''@'' \<notin> set ?d"
    using d_chars grammar_chars(2) by auto
  have no_at_l: "CHR ''@'' \<notin> set l"
    using l(2) grammar_chars(1) by (auto simp: list_all_iff)
  have s_split: "Split ?s (CHR ''@'') = [l, ?d]"
    using Split_append_sep [OF no_at_l, of ?d] Split_none [OF no_at_d] by simp
  have d_form: "?d = Join labels ''.'' @ ''.'' @ final"
    using lb(1) by (rule Join_snoc)
  have "hd labels \<noteq> []"
    using lb by (cases labels) simp_all
  with lb(1) have pre: "Join labels ''.'' \<noteq> []"
    by (rule Join_not_Nil)
  have pre_chars: "list_all (inClass domainClass) (Join labels ''.'')"
  proof -
    have "inClass domainClass c" if "c \<in> set (Join labels ''.'')" for c
    proof -
      from that have "c \<in> set ?d" unfolding d_form by simp
      then show ?thesis using d_chars by (simp add: class_chars)
    qed
    then show ?thesis by (simp add: list_all_iff)
  qed
  have "MatchString emailRegex (l @ ''@'' @ Join labels ''.'' @ ''.'' @ final)"
    using l pre pre_chars f by (intro emailRegex_match) (simp_all add: class_funs)
  then have m: "MatchString emailRegex ?s"
    by (simp add: d_form)
  have "final \<noteq> []" using f(1) by auto
  then have "last ?s = last final" "isAlpha (last final)"
    using f(2) by (simp_all add: d_form list_all_iff)
  then have e: "last ?s \<notin> set (map last spaceRunes)"
    using grammar_chars(3) by simp
  have "hd ?s = hd l" "localPartChar (hd l)"
    using l by (simp_all add: list_all_iff)
  then have b: "hd ?s \<notin> set (map hd spaceRunes)"
    using grammar_chars(1) by simp
  have t: "TrimSpace ?s = ?s"
    using b e by (intro TrimSpace_id) simp_all
  have "length ?s \<le> 254" using n by (simp add: address_def)
  with r m lb(1) show ?thesis
    unfolding address_def isValidEmail_iff t s_split
    by (simp add: additionalReject_def d_split Suc_le_eq)
qed

lemma valid_parts:
  assumes "isValidEmail s"
  shows "\<exists>lp dp. TrimSpace s = lp @ ''@'' @ dp \<and> CHR ''@'' \<notin> set lp \<and> CHR ''@'' \<notin> set dp \<and>
           \<not> additionalReject lp dp (Split dp (CHR ''.''))"
proof -
  let ?t = "TrimSpace s"
  let ?lp = "Split ?t (CHR ''@'') ! 0"
  let ?dp = "Split ?t (CHR ''@'') ! 1"
  from assms have two: "length (Split ?t (CHR ''@'')) = 2"
    and ok: "\<not> additionalReject ?lp ?dp (Split ?dp (CHR ''.''))"
    by (simp_all add: isValidEmail_iff additionalReject_def not_less)
  from Split_two [OF two] have "?t = ?lp @ ''@'' @ ?dp"
    "CHR ''@'' \<notin> set ?lp" "CHR ''@'' \<notin> set ?dp"
    by simp_all
  with ok show ?thesis by blast
qed

lemma reject_by_parts:
  assumes "TrimSpace s = t" and "Split t (CHR ''@'') = [lp, dp]"
    and "additionalReject lp dp (Split dp (CHR ''.''))"
  shows "\<not> isValidEmail s"
  using assms by (auto simp: isValidEmail_iff additionalReject_def)

lemma reject_by_pattern:
  assumes "TrimSpace s = t" and "\<not> MatchString emailRegex t"
  shows "\<not> isValidEmail s"
  using assms by (simp add: isValidEmail_iff)

lemma violation_rejected:
  assumes "TrimSpace s = lp @ ''@'' @ dp" and "CHR ''@'' \<notin> set lp" and "CHR ''@'' \<notin> set dp"
    and "additionalReject lp dp (Split dp (CHR ''.''))"
  shows "\<not> isValidEmail s"
proof -
  have "Split (lp @ ''@'' @ dp) (CHR ''@'') = [lp, dp]"
    using Split_append_sep [OF assms(2), of dp] Split_none [OF assms(3)] by simp
  with assms(1,4) show ?thesis by (intro reject_by_parts)
qed

lemma plain_address_trim:
  assumes "localPartChar c" and "isAlpha e"
  shows "TrimSpace (c # s @ [e]) = c # s @ [e]"
  using assms grammar_chars(1) [of c] grammar_chars(3) [of e]
  by (intro TrimSpace_id) simp_all

lemma crafted_rejected:
  "\<not> isValidEmail ''test..test@example.com''"
  "\<not> isValidEmail ''.user@example.com''"
  "\<not> isValidEmail ''user.@example.com''"
  "\<not> isValidEmail ''user@-example.com''"
  "\<not> isValidEmail ''user@example.co-''"
  "\<not> isValidEmail ''user@.example.com''"
  "\<not> isValidEmail ''user@example.com.''"
  "\<not> isValidEmail ''user@example..com''"
  "\<not> isValidEmail ''user@localhost''"
  "\<not> isValidEmail ''user@mail-.example.com''"
  "\<not> isValidEmail ''user@mail.-example.com''"
proof -
  have t: "TrimSpace s = s" if "s \<noteq> []" "hd s \<notin> set (map hd spaceRunes)"
    "last s \<notin> set (map last spaceRunes)" for s
    using that by (rule TrimSpace_id)
  note ev = additionalReject_def HasPrefix_def HasSuffix_def pushByte_def spaceRunes_def
  show "\<not> isValidEmail ''test..test@example.com''"
    by (rule violation_rejected [where lp = "''test..test''" and dp = "''example.com''"])
      (simp_all add: t ev)
  show "\<not> isValidEmail ''.user@example.com''"
    by (rule violation_rejected [where lp = "''.user''" and dp = "''example.com''"])
      (simp_all add: t ev)
  show "\<not> isValidEmail ''user.@example.com''"
    by (rule violation_rejected [where lp = "''user.''" and dp = "''example.com''"])
      (simp_all add: t ev)
  show "\<not> isValidEmail ''user@-example.com''"
    by (rule violation_rejected [where lp = "''user''" and dp = "''-example.com''"])
      (simp_all add: t ev)
  show "\<not> isValidEmail ''user@example.co-''"
    by (rule violation_rejected [where lp = "''user''" and dp = "''example.co-''"])
      (simp_all add: t ev)
  show "\<not> isValidEmail ''user@.example.com''"
    by (rule violation_rejected [where lp = "''user''" and dp = "''.example.com''"])
      (simp_all add: t ev)
  show "\<not> isValidEmail ''user@example.com.''"
    by (rule violation_rejected [where lp = "''user''" and dp = "''example.com.''"])
      (simp_all add: t ev)
  show "\<not> isValidEmail ''user@example..com''"
    by (rule violation_rejected [where lp = "''user''" and dp = "''example..com''"])
      (simp_all add: t ev)
  show "\<not> isValidEmail ''user@localhost''"
    by (rule violation_rejected [where lp = "''user''" and dp = "''localhost''"])
      (simp_all add: t ev)
  show "\<not> isValidEmail ''user@mail-.example.com''"
    by (rule violation_rejected [where lp = "''user''" and dp = "''mail-.example.com''"])
      (simp_all add: t ev)
  show "\<not> isValidEmail ''user@mail.-example.com''"
    by (rule violation_rejected [where lp = "''user''" and dp = "''mail.-example.com''"])
      (simp_all add: t ev)
qed

lemma tagged_grammar:
  "matchesGrammar ''user+tag'' [''example''] ''com''"
  "\<not> additionalReject ''user+tag'' (Join ([''example''] @ [''com'']) ''.'') ([''example''] @ [''com''])"
  "address ''user+tag'' [''example''] ''com'' = ''user+tag@example.com''"
  by (simp_all add: matchesGrammar_def localPartChar_def labelChar_def isAlpha_def isDigit_def
      byteIn_def additionalReject_def HasPrefix_def HasSuffix_def address_def)

lemma one_byte_absent:
  "c \<notin> set s \<Longrightarrow> \<not> HasPrefix s [c] \<and> \<not> HasSuffix s [c] \<and> \<not> Contains s [c, c]"
proof (intro conjI notI)
  assume c: "c \<notin> set s"
  { assume "HasPrefix s [c]"
    then obtain b where "s = [c] @ b" by (auto simp: HasPrefix_iff)
    with c show False by simp }
  { assume "HasSuffix s [c]"
    then have "drop (length s - 1) s = [c]" by (simp add: HasSuffix_def)
    then have "c \<in> set (drop (length s - 1) s)" by simp
    with c show False by (meson in_set_dropD) }
  { assume "Contains s [c, c]"
    then obtain a b where "s = a @ [c, c] @ b" by (auto simp: Contains_iff)
    with c show False by simp }
qed

text \<open>
  Claim C5. As stated the claim fails: a string that matches the grammar and triggers no
  additional reject is still refused when it is longer than 254 bytes, as the address of
  \<^verbatim>\<open>TestIsValidEmail\<close> with a local part of 250 bytes is.
\<close>

theorem long_grammar_address_rejected:
  "matchesGrammar (replicate 250 (CHR ''a'')) [''example''] ''com'' \<and>
   \<not> additionalReject (replicate 250 (CHR ''a'')) (Join ([''example''] @ [''com'']) ''.'')
        ([''example''] @ [''com'']) \<and>
   address (replicate 250 (CHR ''a'')) [''example''] ''com'' =
     replicate 250 (CHR ''a'') @ ''@example.com'' \<and>
   \<not> isValidEmail (replicate 250 (CHR ''a'') @ ''@example.com'')"
proof -
  have g: "matchesGrammar (replicate 250 (CHR ''a'')) [''example''] ''com''"
    by (simp add: matchesGrammar_def localPartChar_def labelChar_def isAlpha_def isDigit_def
        byteIn_def list_all_iff)
  have "CHR ''.'' \<notin> set (replicate 250 (CHR ''a''))" by simp
  from one_byte_absent [OF this]
  have r: "\<not> additionalReject (replicate 250 (CHR ''a'')) (Join ([''example''] @ [''com'']) ''.'')
        ([''example''] @ [''com''])"
    by (simp add: additionalReject_def) (simp add: HasPrefix_def HasSuffix_def)
  have a: "address (replicate 250 (CHR ''a'')) [''example''] ''com'' =
     replicate 250 (CHR ''a'') @ ''@example.com''"
    by (simp add: address_def)
  have "TrimSpace (replicate 250 (CHR ''a'') @ ''@example.com'') =
      replicate 250 (CHR ''a'') @ ''@example.com''"
    by (rule TrimSpace_id) (simp_all add: spaceRunes_def hd_append)
  then have "\<not> isValidEmail (replicate 250 (CHR ''a'') @ ''@example.com'')"
    by (simp add: isValidEmail_iff)
  with g r a show ?thesis by blast
qed

text \<open>
  Claim C5, amended. \<^const>\<open>isValidEmail\<close> returns true for every string of at most 254
  bytes that matches the grammar local-part@domain (the local part one or more bytes of
  \<^verbatim>\<open>[A-Za-z0-9._%+-]\<close>, the domain labels of \<^verbatim>\<open>[A-Za-z0-9-]\<close> joined by dots, with a
  final label of at least two letters) and triggers none of the additional rejects. It
  returns false for every string that, after trimming, consists of a local part and a
  domain around its one at sign of which one of the additional rejects holds: the local
  part starts or ends with a dot or contains two dots in a row; the domain starts or ends
  with a hyphen or a dot or contains two dots in a row; the domain has fewer than two
  labels; a label starts or ends with a hyphen or is empty. "user+tag@example.com" is
  accepted, "test..test@example.com" and a crafted example of each class are refused.
\<close>

theorem isValidEmail_grammar:
  "(matchesGrammar l labels final \<and>
    \<not> additionalReject l (Join (labels @ [final]) ''.'') (labels @ [final]) \<and>
    length (address l labels final) \<le> 254 \<longrightarrow>
      isValidEmail (address l labels final)) \<and>
   (TrimSpace s = lp @ ''@'' @ dp \<and> CHR ''@'' \<notin> set lp \<and> CHR ''@'' \<notin> set dp \<and>
    additionalReject lp dp (Split dp (CHR ''.'')) \<longrightarrow> \<not> isValidEmail s) \<and>
   isValidEmail ''user+tag@example.com'' \<and>
   \<not> isValidEmail ''test..test@example.com'' \<and>
   \<not> isValidEmail ''.user@example.com'' \<and>
   \<not> isValidEmail ''user.@example.com'' \<and>
   \<not> isValidEmail ''user@-example.com'' \<and>
   \<not> isValidEmail ''user@example.co-'' \<and>
   \<not> isValidEmail ''user@.example.com'' \<and>
   \<not> isValidEmail ''user@example.com.'' \<and>
   \<not> isValidEmail ''user@example..com'' \<and>
   \<not> isValidEmail ''user@localhost'' \<and>
   \<not> isValidEmail ''user@mail-.example.com'' \<and>
   \<not> isValidEmail ''user@mail.-example.com''"
proof -
  have a: "matchesGrammar l labels final \<and>
    \<not> additionalReject l (Join (labels @ [final]) ''.'') (labels @ [final]) \<and>
    length (address l labels final) \<le> 254 \<longrightarrow>
      isValidEmail (address l labels final)"
    using grammar_valid by blast
  have b: "TrimSpace s = lp @ ''@'' @ dp \<and> CHR ''@'' \<notin> set lp \<and> CHR ''@'' \<notin> set dp \<and>
    additionalReject lp dp (Split dp (CHR ''.'')) \<longrightarrow> \<not> isValidEmail s"
    using violation_rejected by blast
  have c: "isValidEmail ''user+tag@example.com''"
    using grammar_valid [OF tagged_grammar(1,2)] by (simp add: tagged_grammar(3))
  from a b c crafted_rejected show ?thesis by blast
qed

theorem isValidEmail_grammar_witness:
  "matchesGrammar ''user+tag'' [''example''] ''com'' \<and>
   \<not> additionalReject ''user+tag'' (Join ([''example''] @ [''com'']) ''.'') ([''example''] @ [''com'']) \<and>
   length (address ''user+tag'' [''example''] ''com'') \<le> 254 \<and>
   isValidEmail (address ''user+tag'' [''example''] ''com'') \<and>
   TrimSpace '' user@example..com '' = ''user'' @ ''@'' @ ''example..com'' \<and>
   CHR ''@'' \<notin> set ''user'' \<and> CHR ''@'' \<notin> set ''example..com'' \<and>
   additionalReject ''user'' ''example..com'' (Split ''example..com'' (CHR ''.'')) \<and>
   \<not> isValidEmail '' user@example..com ''"
proof -
  note T = isValidEmail_grammar
  have n: "length (address ''user+tag'' [''example''] ''com'') \<le> 254"
    by (simp add: tagged_grammar(3))
  have a: "isValidEmail (address ''user+tag'' [''example''] ''com'')"
    using T [of "''user+tag''" "[''example'']" "''com''"] tagged_grammar(1,2) n by blast
  have "trimLeftRunes spaceRunes '' user@example..com '' =
      trimLeftRunes spaceRunes ''user@example..com ''"
    by (subst trimLeftRunes.simps) (simp add: spaceRunes_def HasPrefix_def)
  moreover have "TrimSpace (''user@example..com'' @ replicate 1 (CHR '' '')) = ''user@example..com''"
    by (rule TrimSpace_padded) (simp_all add: spaceRunes_def)
  ultimately have t: "TrimSpace '' user@example..com '' = ''user'' @ ''@'' @ ''example..com''"
    by (simp add: TrimSpace_def)
  have r: "additionalReject ''user'' ''example..com'' (Split ''example..com'' (CHR ''.''))"
    by (simp add: additionalReject_def HasPrefix_def HasSuffix_def pushByte_def)
  have b: "\<not> isValidEmail '' user@example..com ''"
    using T [of l labels final "'' user@example..com ''" "''user''" "''example..com''"] t r
    by simp
  show ?thesis
    using tagged_grammar(1,2) n a t r b by simp
qed

end
